theory Spec2Isabelle
  imports Complex_Main "HOL-Library.Word"
begin

section \<open>The voice session controller of \<^verbatim>\<open>src/services/geminiService.ts\<close>\<close>

text \<open>
  The class \<^verbatim>\<open>GeminiLiveService\<close> is embedded as a record of its private fields and
  one HOL function per method or callback. Every call the class makes to the outside
  (a host callback, the transport, the audio graph, the console) is an entry of an
  effect list that the function returns next to the updated record, in program order.
  Values the class reads from outside (the output clock, \<^verbatim>\<open>Date.now()\<close>, the outcome
  of an awaited promise) are arguments. Each method or callback body runs to completion
  before the next one starts (the event-loop reading of the source). JavaScript numbers
  are modelled as reals (clock readings, durations, samples) or integers
  (\<^verbatim>\<open>Date.now()\<close>); the only arithmetic the class does on them is comparison,
  \<^verbatim>\<open>Math.max\<close>, addition, a sum of squares, one division and one square root.
\<close>

subsection \<open>Data\<close>

type_synonym byte = "8 word"

datatype error = Error string

text \<open>External objects the class holds references to; the number identifies the object.\<close>

record AudioContext =
  sampleRate :: nat

datatype MediaStream = MediaStream nat

datatype Session = Session nat

record ScriptProcessorNode =
  bufferSize :: nat
  numberOfInputChannels :: nat
  numberOfOutputChannels :: nat

datatype MediaStreamAudioSourceNode = MediaStreamAudioSourceNode MediaStream

text \<open>
  An \<^verbatim>\<open>AudioBuffer\<close>: \<^verbatim>\<open>duration\<close> is its number of sample frames over its sample
  rate, so it is never negative.
\<close>

record AudioBuffer =
  frames :: nat
  rate :: nat

definition duration :: "AudioBuffer \<Rightarrow> real" where
  "duration b = real (frames b) / real (rate b)"

text \<open>
  The inbound message, with the optional members that
  \<^verbatim>\<open>message.serverContent?.modelTurn?.parts?.[0]?.inlineData?.data\<close> walks through.
\<close>

record Blob =
  data :: "string option"

record Part =
  inlineData :: "Blob option"

record Content =
  parts :: "Part list option"

record ServerContent =
  modelTurn :: "Content option"

record 'a FunctionCall =
  fc_id :: string
  fc_name :: string
  fc_args :: 'a

record 'a ToolCall =
  functionCalls :: "'a FunctionCall list"

record 'a LiveServerMessage =
  serverContent :: "ServerContent option"
  toolCall :: "'a ToolCall option"

text \<open>The response object \<^verbatim>\<open>{id, name, response: {result: {status, ticketId}}}\<close>.\<close>

record Result =
  status :: string
  ticketId :: string

record Response =
  result :: Result

record FunctionResponse =
  fr_id :: string
  fr_name :: string
  response :: Response

record Media =
  mimeType :: string
  media_data :: string

text \<open>
  A JavaScript number that may be \<^verbatim>\<open>NaN\<close>: the level of an empty frame is
  \<^verbatim>\<open>Math.sqrt(0 / 0)\<close>.
\<close>

datatype number = NaN | Num real

text \<open>Calls to the outside, in the order the class makes them.\<close>

datatype 'a effect =
    StatusChange string
  | AudioLevel number
  | ReportSubmitted 'a
  | SendRealtimeInput Session Media
  | SendToolResponse Session "FunctionResponse list"
  | SourceStart real AudioBuffer
  | ConsoleError string error
  | NewAudioContext nat
  | Resume AudioContext
  | GetUserMedia
  | LiveConnect
  | CreateNodes MediaStream nat
  | ProcessorDisconnect
  | SourceDisconnect
  | TracksStop MediaStream
  | ContextClose AudioContext

text \<open>
  The fields of the class. A callback field holds \<open>True\<close> when the host has assigned a
  function to it and \<open>False\<close> when it is \<^verbatim>\<open>null\<close> (its initial value); the promise
  field holds the outcome the promise settles with.
\<close>

record GeminiLiveService =
  inputAudioContext :: "AudioContext option"
  outputAudioContext :: "AudioContext option"
  stream :: "MediaStream option"
  processor :: "ScriptProcessorNode option"
  source :: "MediaStreamAudioSourceNode option"
  nextStartTime :: real
  sessionPromise :: "(error + Session) option"
  currentSession :: "Session option"
  onReportSubmitted :: bool
  onAudioLevel :: bool
  onStatusChange :: bool

definition constructor :: GeminiLiveService where
  "constructor =
     \<lparr>inputAudioContext = None, outputAudioContext = None, stream = None,
      processor = None, source = None, nextStartTime = 0, sessionPromise = None,
      currentSession = None, onReportSubmitted = False, onAudioLevel = False,
      onStatusChange = False\<rparr>"

text \<open>
  The helpers imported from \<^verbatim>\<open>./audioUtils\<close> are not part of the sources at hand and
  are parameters of the model. \<^verbatim>\<open>float32ToInt16PCM\<close> yields the bytes of the buffer
  behind the \<^verbatim>\<open>Int16Array\<close> it returns (the \<^verbatim>\<open>Uint8Array\<close> the source wraps around
  it shares that buffer); \<^verbatim>\<open>decodeAudioData\<close> is awaited inside \<^verbatim>\<open>try\<close> and may
  fail.
\<close>

record audioUtils =
  arrayBufferToBase64 :: "byte list \<Rightarrow> string"
  decodeAudioData :: "byte list \<Rightarrow> AudioContext \<Rightarrow> error + AudioBuffer"
  float32ToInt16PCM :: "real list \<Rightarrow> byte list"
  base64ToUint8Array :: "string \<Rightarrow> byte list"

subsection \<open>Number to string\<close>

text \<open>\<^verbatim>\<open>Date.now().toString()\<close>: the decimal digits of an integer.\<close>

definition digit :: "nat \<Rightarrow> char" where
  "digit d =
     (if d = 0 then CHR ''0'' else if d = 1 then CHR ''1'' else if d = 2 then CHR ''2''
      else if d = 3 then CHR ''3'' else if d = 4 then CHR ''4'' else if d = 5 then CHR ''5''
      else if d = 6 then CHR ''6'' else if d = 7 then CHR ''7'' else if d = 8 then CHR ''8''
      else CHR ''9'')"

fun natToString :: "nat \<Rightarrow> string" where
  "natToString n =
     (if n < 10 then [digit n] else natToString (n div 10) @ [digit (n mod 10)])"

declare natToString.simps [simp del]

definition toString :: "int \<Rightarrow> string" where
  "toString i = (if i < 0 then CHR ''-'' # natToString (nat (- i)) else natToString (nat i))"

subsection \<open>handleMessage\<close>

text \<open>\<^verbatim>\<open>this.onX?.(v)\<close>: the call happens when a function is assigned.\<close>

definition notify :: "bool \<Rightarrow> 'a effect \<Rightarrow> 'a effect list" where
  "notify cb e = (if cb then [e] else [])"

definition base64AudioOf :: "'a LiveServerMessage \<Rightarrow> string option" where
  "base64AudioOf message =
     (case serverContent message of None \<Rightarrow> None | Some sc \<Rightarrow>
     (case modelTurn sc of None \<Rightarrow> None | Some mt \<Rightarrow>
     (case parts mt of None \<Rightarrow> None | Some ps \<Rightarrow>
     (case ps of [] \<Rightarrow> None | p # _ \<Rightarrow>
     (case inlineData p of None \<Rightarrow> None | Some b \<Rightarrow> data b)))))"

text \<open>
  The loop over \<^verbatim>\<open>message.toolCall.functionCalls\<close>. \<open>dateNow i\<close> is what the
  \<open>i\<close>-th evaluation of \<^verbatim>\<open>Date.now()\<close> in this run of the handler returns;
  \<open>responses\<close> is the array built by \<^verbatim>\<open>push\<close>, \<open>es\<close> the calls made so far.
\<close>

fun forFunctionCalls ::
  "bool \<Rightarrow> (nat \<Rightarrow> int) \<Rightarrow> 'a FunctionCall list \<Rightarrow> nat \<Rightarrow> FunctionResponse list \<Rightarrow>
   'a effect list \<Rightarrow> FunctionResponse list \<times> 'a effect list" where
  "forFunctionCalls cb dateNow [] i responses es = (responses, es)"
| "forFunctionCalls cb dateNow (fc # fcs) i responses es =
     (if fc_name fc = ''reportEmergency'' then
        forFunctionCalls cb dateNow fcs (Suc i)
          (responses @
             [\<lparr>fr_id = fc_id fc, fr_name = fc_name fc,
               response = \<lparr>result = \<lparr>status = ''success'', ticketId = toString (dateNow i)\<rparr>\<rparr>\<rparr>])
          (es @ notify cb (ReportSubmitted (fc_args fc)))
      else forFunctionCalls cb dateNow fcs i responses es)"

text \<open>
  The first half of \<^verbatim>\<open>handleMessage\<close> (\<^verbatim>\<open>// Handle Audio Output\<close>).
  \<open>currentTime\<close> is \<^verbatim>\<open>this.outputAudioContext.currentTime\<close> as read by this run. The
  \<^verbatim>\<open>try\<close> block creates the buffer source, connects it and starts it: one
  \<open>SourceStart\<close>. The \<^verbatim>\<open>catch\<close> branch logs and leaves the cursor as it is. An
  empty string is falsy, so it is skipped like a missing one.
\<close>

definition handleAudioOutput ::
  "audioUtils \<Rightarrow> GeminiLiveService \<Rightarrow> 'a LiveServerMessage \<Rightarrow> real \<Rightarrow>
   GeminiLiveService \<times> 'a effect list" where
  "handleAudioOutput U this message currentTime =
     (case (base64AudioOf message, outputAudioContext this) of
        (Some base64Audio, Some ctx) \<Rightarrow>
          if base64Audio = [] then (this, [])
          else
            let audioData = base64ToUint8Array U base64Audio;
                this' = this\<lparr>nextStartTime := max (nextStartTime this) currentTime\<rparr>
            in (case decodeAudioData U audioData ctx of
                  Inr buffer \<Rightarrow>
                    (this'\<lparr>nextStartTime := nextStartTime this' + duration buffer\<rparr>,
                     [SourceStart (nextStartTime this') buffer])
                | Inl e \<Rightarrow> (this', [ConsoleError ''Error decoding audio'' e]))
      | _ \<Rightarrow> (this, []))"

text \<open>The second half (\<^verbatim>\<open>// Handle Tool Calls\<close>); it assigns no field.\<close>

definition handleToolCalls ::
  "GeminiLiveService \<Rightarrow> 'a LiveServerMessage \<Rightarrow> (nat \<Rightarrow> int) \<Rightarrow> 'a effect list" where
  "handleToolCalls this message dateNow =
     (case toolCall message of
        None \<Rightarrow> []
      | Some tc \<Rightarrow>
          let (responses, es) =
                forFunctionCalls (onReportSubmitted this) dateNow (functionCalls tc) 0 [] []
          in es @
             (if length responses > 0 then
                (case currentSession this of
                   Some session \<Rightarrow> [SendToolResponse session responses]
                 | None \<Rightarrow> [])
              else []))"

definition handleMessage ::
  "audioUtils \<Rightarrow> GeminiLiveService \<Rightarrow> 'a LiveServerMessage \<Rightarrow> real \<Rightarrow> (nat \<Rightarrow> int) \<Rightarrow>
   GeminiLiveService \<times> 'a effect list" where
  "handleMessage U this message currentTime dateNow =
     (let (this1, es1) = handleAudioOutput U this message currentTime;
          es2 = handleToolCalls this1 message dateNow
      in (this1, es1 @ es2))"

subsection \<open>The capture callback\<close>

text \<open>
  The body of \<^verbatim>\<open>processor.onaudioprocess\<close>. \<open>sumLoop\<close> is the \<^verbatim>\<open>for\<close> loop that
  adds the squares to \<^verbatim>\<open>sum\<close> (here \<open>acc\<close>); \<open>rms\<close> is \<^verbatim>\<open>Math.sqrt(sum / inputData.length)\<close>,
  which is \<^verbatim>\<open>NaN\<close> for a frame of length zero.
\<close>

fun sumLoop :: "real list \<Rightarrow> real \<Rightarrow> real" where
  "sumLoop [] acc = acc"
| "sumLoop (x # xs) acc = sumLoop xs (acc + x * x)"

definition rms :: "real list \<Rightarrow> number" where
  "rms inputData =
     (let acc = sumLoop inputData 0
      in if length inputData = 0 then NaN else Num (sqrt (acc / real (length inputData))))"

definition onaudioprocess :: "audioUtils \<Rightarrow> GeminiLiveService \<Rightarrow> real list \<Rightarrow> 'a effect list" where
  "onaudioprocess U this inputData =
     (let es1 = notify (onAudioLevel this) (AudioLevel (rms inputData));
          pcmData = float32ToInt16PCM U inputData;
          base64Data = arrayBufferToBase64 U pcmData
      in es1 @
         (case currentSession this of
            Some session \<Rightarrow>
              [SendRealtimeInput session
                 \<lparr>mimeType = ''audio/pcm;rate=16000'', media_data = base64Data\<rparr>]
          | None \<Rightarrow> []))"

subsection \<open>Lifecycle: connect, handleOpen, stop and the transport callbacks\<close>

text \<open>
  What \<^verbatim>\<open>connect\<close> awaits is given by the environment: whether each new context
  starts suspended, what \<^verbatim>\<open>getUserMedia\<close> settles with and what
  \<^verbatim>\<open>ai.live.connect\<close> settles with. A rejected promise ends \<^verbatim>\<open>connect\<close> with that
  error; the fields assigned before stay assigned.
\<close>

record connectEnv =
  inputSuspended :: bool
  outputSuspended :: bool
  getUserMedia :: "error + MediaStream"
  liveConnect :: "error + Session"

definition connect ::
  "connectEnv \<Rightarrow> GeminiLiveService \<Rightarrow> (error + unit) \<times> GeminiLiveService \<times> 'a effect list" where
  "connect env this =
     (let inCtx = \<lparr>sampleRate = 16000\<rparr>;
          outCtx = \<lparr>sampleRate = 24000\<rparr>;
          this1 = this\<lparr>inputAudioContext := Some inCtx, outputAudioContext := Some outCtx\<rparr>;
          es1 = notify (onStatusChange this) (StatusChange ''Initializing Audio...'')
                @ [NewAudioContext 16000, NewAudioContext 24000]
                @ (if inputSuspended env then [Resume inCtx] else [])
                @ (if outputSuspended env then [Resume outCtx] else [])
                @ notify (onStatusChange this) (StatusChange ''Requesting Mic...'')
                @ [GetUserMedia]
      in case getUserMedia env of
           Inl e \<Rightarrow> (Inl e, this1, es1)
         | Inr st \<Rightarrow>
             let this2 = this1\<lparr>stream := Some st\<rparr>;
                 es2 = es1 @ notify (onStatusChange this) (StatusChange ''Connecting to HQ...'')
                       @ [LiveConnect];
                 this3 = this2\<lparr>sessionPromise := Some (liveConnect env)\<rparr>
             in (case liveConnect env of
                   Inl e \<Rightarrow> (Inl e, this3, es2)
                 | Inr session \<Rightarrow> (Inr (), this3\<lparr>currentSession := Some session\<rparr>, es2)))"

definition handleOpen :: "GeminiLiveService \<Rightarrow> GeminiLiveService \<times> 'a effect list" where
  "handleOpen this =
     (let es1 = notify (onStatusChange this) (StatusChange ''Live'')
      in case (inputAudioContext this, stream this) of
           (Some ctx, Some st) \<Rightarrow>
             (this\<lparr>source := Some (MediaStreamAudioSourceNode st),
                   processor := Some \<lparr>bufferSize = 4096, numberOfInputChannels = 1,
                                       numberOfOutputChannels = 1\<rparr>\<rparr>,
              es1 @ [CreateNodes st 4096])
         | _ \<Rightarrow> (this, es1))"

definition stop :: "GeminiLiveService \<Rightarrow> GeminiLiveService \<times> 'a effect list" where
  "stop this =
     (let es =
            (case processor this of Some p \<Rightarrow> [ProcessorDisconnect] | None \<Rightarrow> [])
          @ (case source this of Some src \<Rightarrow> [SourceDisconnect] | None \<Rightarrow> [])
          @ (case stream this of Some st \<Rightarrow> [TracksStop st] | None \<Rightarrow> [])
          @ (case inputAudioContext this of Some ctx \<Rightarrow> [ContextClose ctx] | None \<Rightarrow> [])
          @ (case outputAudioContext this of Some ctx \<Rightarrow> [ContextClose ctx] | None \<Rightarrow> []);
          this' = this\<lparr>processor := None, source := None, stream := None,
                        inputAudioContext := None, outputAudioContext := None,
                        currentSession := None\<rparr>
      in (this', es @ notify (onStatusChange this') (StatusChange ''Disconnected'')))"

definition onclose :: "GeminiLiveService \<Rightarrow> GeminiLiveService \<times> 'a effect list" where
  "onclose this =
     (let es1 = notify (onStatusChange this) (StatusChange ''Disconnected'');
          (this', es2) = stop this
      in (this', es1 @ es2))"

definition onerror :: "GeminiLiveService \<Rightarrow> error \<Rightarrow> GeminiLiveService \<times> 'a effect list" where
  "onerror this err =
     (this, [ConsoleError ''Live API Error:'' err]
            @ notify (onStatusChange this) (StatusChange ''Connection Error''))"

subsection \<open>Reading an effect list\<close>

fun reportOf :: "'a effect \<Rightarrow> 'a list" where
  "reportOf (ReportSubmitted a) = [a]"
| "reportOf _ = []"

fun toolResponseOf :: "'a effect \<Rightarrow> FunctionResponse list list" where
  "toolResponseOf (SendToolResponse session rs) = [rs]"
| "toolResponseOf _ = []"

fun startOf :: "'a effect \<Rightarrow> (real \<times> AudioBuffer) list" where
  "startOf (SourceStart t b) = [(t, b)]"
| "startOf _ = []"

fun levelOf :: "'a effect \<Rightarrow> number list" where
  "levelOf (AudioLevel l) = [l]"
| "levelOf _ = []"

fun realtimeInputOf :: "'a effect \<Rightarrow> Media list" where
  "realtimeInputOf (SendRealtimeInput session m) = [m]"
| "realtimeInputOf _ = []"

fun statusOf :: "'a effect \<Rightarrow> string list" where
  "statusOf (StatusChange t) = [t]"
| "statusOf _ = []"

fun liveConnectOf :: "'a effect \<Rightarrow> unit list" where
  "liveConnectOf LiveConnect = [()]"
| "liveConnectOf _ = []"

text \<open>The arguments of the calls of one kind, in the order the calls were made.\<close>

definition reportsOf :: "'a effect list \<Rightarrow> 'a list" where
  "reportsOf es = concat (map reportOf es)"

definition toolResponsesOf :: "'a effect list \<Rightarrow> FunctionResponse list list" where
  "toolResponsesOf es = concat (map toolResponseOf es)"

definition startsOf :: "'a effect list \<Rightarrow> (real \<times> AudioBuffer) list" where
  "startsOf es = concat (map startOf es)"

definition levelsOf :: "'a effect list \<Rightarrow> number list" where
  "levelsOf es = concat (map levelOf es)"

definition realtimeInputsOf :: "'a effect list \<Rightarrow> Media list" where
  "realtimeInputsOf es = concat (map realtimeInputOf es)"

definition statusesOf :: "'a effect list \<Rightarrow> string list" where
  "statusesOf es = concat (map statusOf es)"

definition liveConnectsOf :: "'a effect list \<Rightarrow> unit list" where
  "liveConnectsOf es = concat (map liveConnectOf es)"

text \<open>
  The calls of a message, the recognized ones among them, and the response the loop
  builds for the \<open>i\<close>-th recognized call.
\<close>

definition callsOf :: "'a LiveServerMessage \<Rightarrow> 'a FunctionCall list" where
  "callsOf message = (case toolCall message of None \<Rightarrow> [] | Some tc \<Rightarrow> functionCalls tc)"

definition recognized :: "'a FunctionCall list \<Rightarrow> 'a FunctionCall list" where
  "recognized fcs = filter (\<lambda>fc. fc_name fc = ''reportEmergency'') fcs"

definition unrecognized :: "'a FunctionCall list \<Rightarrow> 'a FunctionCall list" where
  "unrecognized fcs = filter (\<lambda>fc. fc_name fc \<noteq> ''reportEmergency'') fcs"

definition responseFor :: "(nat \<Rightarrow> int) \<Rightarrow> nat \<times> 'a FunctionCall \<Rightarrow> FunctionResponse" where
  "responseFor dateNow p =
     \<lparr>fr_id = fc_id (snd p), fr_name = fc_name (snd p),
      response = \<lparr>result = \<lparr>status = ''success'', ticketId = toString (dateNow (fst p))\<rparr>\<rparr>\<rparr>"

text \<open>The array \<^verbatim>\<open>responses\<close> as it stands when the loop over a message's calls ends.\<close>

definition builtResponses ::
  "GeminiLiveService \<Rightarrow> (nat \<Rightarrow> int) \<Rightarrow> 'a LiveServerMessage \<Rightarrow> FunctionResponse list" where
  "builtResponses this dateNow message =
     fst (forFunctionCalls (onReportSubmitted this) dateNow (callsOf message) 0 []
            ([] :: 'a effect list))"

subsection \<open>Concrete inputs\<close>

text \<open>
  One instance of the helpers, to run the model on concrete inputs: the decoder accepts
  an even number of bytes (16-bit samples at 24 kHz) and rejects an odd one.
\<close>

definition sampleUtils :: audioUtils where
  "sampleUtils =
     \<lparr>arrayBufferToBase64 = (\<lambda>bs. replicate (length bs) CHR ''A''),
      decodeAudioData = (\<lambda>bs ctx. if even (length bs)
                                   then Inr \<lparr>frames = length bs div 2, rate = 24000\<rparr>
                                   else Inl (Error ''odd byte length'')),
      float32ToInt16PCM = (\<lambda>xs. replicate (2 * length xs) 0),
      base64ToUint8Array = (\<lambda>t. replicate (length t) 0)\<rparr>"

text \<open>A service with every callback assigned, after \<^verbatim>\<open>connect\<close> and \<^verbatim>\<open>handleOpen\<close>.\<close>

definition liveService :: GeminiLiveService where
  "liveService =
     \<lparr>inputAudioContext = Some \<lparr>sampleRate = 16000\<rparr>,
      outputAudioContext = Some \<lparr>sampleRate = 24000\<rparr>,
      stream = Some (MediaStream 1),
      processor = Some \<lparr>bufferSize = 4096, numberOfInputChannels = 1,
                          numberOfOutputChannels = 1\<rparr>,
      source = Some (MediaStreamAudioSourceNode (MediaStream 1)),
      nextStartTime = 0, sessionPromise = Some (Inr (Session 1)),
      currentSession = Some (Session 1), onReportSubmitted = True, onAudioLevel = True,
      onStatusChange = True\<rparr>"

definition floodMessage :: "(string \<times> string) LiveServerMessage" where
  "floodMessage =
     \<lparr>serverContent = None,
      toolCall = Some \<lparr>functionCalls =
        [\<lparr>fc_id = ''1'', fc_name = ''reportEmergency'', fc_args = (''Flood'', ''Water rising'')\<rparr>,
         \<lparr>fc_id = ''2'', fc_name = ''lookupWeather'', fc_args = (''Hanoi'', ''today'')\<rparr>]\<rparr>\<rparr>"

text \<open>The ticket identifier inside a response.\<close>

definition ticketIdOf :: "FunctionResponse \<Rightarrow> string" where
  "ticketIdOf r = ticketId (result (response r))"

definition twoReports :: "(string \<times> string) LiveServerMessage" where
  "twoReports =
     \<lparr>serverContent = None,
      toolCall = Some \<lparr>functionCalls =
        [\<lparr>fc_id = ''a'', fc_name = ''reportEmergency'', fc_args = (''Fire'', ''Kitchen'')\<rparr>,
         \<lparr>fc_id = ''b'', fc_name = ''reportEmergency'', fc_args = (''Flood'', ''Basement'')\<rparr>]\<rparr>\<rparr>"

subsection \<open>Sequences of inbound messages\<close>

text \<open>
  What the first half of \<^verbatim>\<open>handleMessage\<close> does with the chunk of a message: \<open>None\<close>
  when no decoding is attempted (no chunk, an empty one, or no output context),
  otherwise the outcome of \<^verbatim>\<open>decodeAudioData\<close>.
\<close>

definition decodedChunk ::
  "audioUtils \<Rightarrow> GeminiLiveService \<Rightarrow> 'a LiveServerMessage \<Rightarrow> (error + AudioBuffer) option" where
  "decodedChunk U this message =
     (case (base64AudioOf message, outputAudioContext this) of
        (Some base64Audio, Some ctx) \<Rightarrow>
          if base64Audio = [] then None
          else Some (decodeAudioData U (base64ToUint8Array U base64Audio) ctx)
      | _ \<Rightarrow> None)"

text \<open>
  An arrival is a message with the two clock readings its handling takes. Messages are
  handled one after the other, in arrival order.
\<close>

type_synonym 'a arrival = "'a LiveServerMessage \<times> real \<times> (nat \<Rightarrow> int)"

fun handleMessages ::
  "audioUtils \<Rightarrow> GeminiLiveService \<Rightarrow> 'a arrival list \<Rightarrow> GeminiLiveService \<times> 'a effect list" where
  "handleMessages U this [] = (this, [])"
| "handleMessages U this ((message, currentTime, dateNow) # rest) =
     (let (this1, es1) = handleMessage U this message currentTime dateNow;
          (this2, es2) = handleMessages U this1 rest
      in (this2, es1 @ es2))"

text \<open>
  The scheduling rule in the words of the specification: a chunk starts at the later of
  the cursor and the clock, and the cursor moves to that start plus the chunk's duration.
\<close>

fun schedule :: "real \<Rightarrow> (real \<times> AudioBuffer) list \<Rightarrow> (real \<times> AudioBuffer) list" where
  "schedule cursor [] = []"
| "schedule cursor ((currentTime, buffer) # rest) =
     (max cursor currentTime, buffer)
     # schedule (max cursor currentTime + duration buffer) rest"

definition audioMessage :: "string \<Rightarrow> (string \<times> string) LiveServerMessage" where
  "audioMessage base64Audio =
     \<lparr>serverContent =
        Some \<lparr>modelTurn = Some \<lparr>parts = Some [\<lparr>inlineData = Some \<lparr>data = Some base64Audio\<rparr>\<rparr>]\<rparr>\<rparr>,
      toolCall = None\<rparr>"

text \<open>The output-clock readings of a list of arrivals.\<close>

definition clocksOf :: "'a arrival list \<Rightarrow> real list" where
  "clocksOf arrivals = map (\<lambda>a. fst (snd a)) arrivals"

text \<open>Three chunks that decode: the second follows at once, the third after a stall.\<close>

definition threeChunks :: "(string \<times> string) arrival list" where
  "threeChunks =
     [(audioMessage ''AAAA'', 1, \<lambda>i. 0),
      (audioMessage ''AAAAAAAA'', 1, \<lambda>i. 0),
      (audioMessage ''AAAA'', 5, \<lambda>i. 0)]"

subsection \<open>Lifecycle scenarios\<close>

text \<open>The number of terminal status notifications among the calls made.\<close>

definition terminalNotifications :: "'a effect list \<Rightarrow> nat" where
  "terminalNotifications es = length (filter (\<lambda>t. t = ''Disconnected'') (statusesOf es))"

text \<open>\<^verbatim>\<open>stop()\<close> called twice in succession.\<close>

definition stopTwice :: "GeminiLiveService \<Rightarrow> GeminiLiveService \<times> 'a effect list" where
  "stopTwice this =
     (let (this1, es1) = stop this;
          (this2, es2) = stop this1
      in (this2, es1 @ es2))"

text \<open>
  A freshly constructed service to which the host has assigned its three callbacks, and
  two environments in which everything \<^verbatim>\<open>connect\<close> awaits succeeds.
\<close>

definition hostReady :: GeminiLiveService where
  "hostReady = constructor\<lparr>onReportSubmitted := True, onAudioLevel := True,
                            onStatusChange := True\<rparr>"

definition firstEnv :: connectEnv where
  "firstEnv = \<lparr>inputSuspended = False, outputSuspended = False,
               getUserMedia = Inr (MediaStream 1), liveConnect = Inr (Session 1)\<rparr>"

definition secondEnv :: connectEnv where
  "secondEnv = \<lparr>inputSuspended = False, outputSuspended = False,
                getUserMedia = Inr (MediaStream 2), liveConnect = Inr (Session 2)\<rparr>"

subsection \<open>Decimal numerals\<close>

text \<open>
  Reading a decimal string back, in the words of the specification of a decimal numeral:
  the value of a digit is its place in the row of digits, the value of a digit string is
  ten times the value of all but its last digit plus the last digit, and a leading minus
  sign negates. A string is a decimal numeral when it is a non-empty digit string without
  a superfluous leading zero, possibly after a minus sign (and then not zero).
\<close>

definition digitValue :: "char \<Rightarrow> nat" where
  "digitValue c = length (takeWhile (\<lambda>d. d \<noteq> c) ''0123456789'')"

definition decimalNat :: "string \<Rightarrow> nat" where
  "decimalNat s = foldl (\<lambda>acc c. 10 * acc + digitValue c) 0 s"

definition decimalInt :: "string \<Rightarrow> int" where
  "decimalInt s =
     (if s \<noteq> [] \<and> hd s = CHR ''-'' then - int (decimalNat (tl s)) else int (decimalNat s))"

definition unsignedDecimal :: "string \<Rightarrow> bool" where
  "unsignedDecimal s =
     (s \<noteq> [] \<and> list_all (\<lambda>c. c \<in> set ''0123456789'') s \<and> (hd s = CHR ''0'' \<longrightarrow> s = ''0''))"

definition signedDecimal :: "string \<Rightarrow> bool" where
  "signedDecimal s =
     (if s \<noteq> [] \<and> hd s = CHR ''-'' then unsignedDecimal (tl s) \<and> tl s \<noteq> ''0''
      else unsignedDecimal s)"

section \<open>Properties\<close>

subsection \<open>The tool-call loop\<close>

lemma forFunctionCalls_eq:
  "forFunctionCalls cb dateNow fcs i rs es =
     (rs @ map (responseFor dateNow) (enumerate i (recognized fcs)),
      es @ concat (map (\<lambda>fc. notify cb (ReportSubmitted (fc_args fc))) (recognized fcs)))"
proof (induction fcs arbitrary: i rs es)
  case Nil
  show ?case by (simp add: recognized_def)
next
  case (Cons fc fcs)
  show ?case
  proof (cases "fc_name fc = ''reportEmergency''")
    case True
    then have r: "recognized (fc # fcs) = fc # recognized fcs"
      by (simp add: recognized_def)
    show ?thesis
      using True by (simp add: Cons.IH r responseFor_def)
  next
    case False
    then have r: "recognized (fc # fcs) = recognized fcs"
      by (simp add: recognized_def)
    show ?thesis
      using False by (simp add: Cons.IH r)
  qed
qed

lemma reportsOf_notifications:
  "reportsOf (concat (map (\<lambda>fc. notify cb (ReportSubmitted (fc_args fc))) fcs))
     = (if cb then map fc_args fcs else [])"
  by (induction fcs) (simp_all add: reportsOf_def notify_def)

lemma toolResponsesOf_notifications:
  "toolResponsesOf (concat (map (\<lambda>fc. notify cb (ReportSubmitted (fc_args fc))) fcs)) = []"
  by (induction fcs) (simp_all add: toolResponsesOf_def notify_def)

lemma startsOf_notifications:
  "startsOf (concat (map (\<lambda>fc. notify cb (ReportSubmitted (fc_args fc))) fcs)) = []"
  by (induction fcs) (simp_all add: startsOf_def notify_def)

lemma enumerate_Nil_iff: "enumerate i xs = [] \<longleftrightarrow> xs = []"
  by (cases xs) simp_all

lemma handleToolCalls_eq:
  "handleToolCalls this message dateNow =
     concat (map (\<lambda>fc. notify (onReportSubmitted this) (ReportSubmitted (fc_args fc)))
               (recognized (callsOf message)))
     @ (if recognized (callsOf message) \<noteq> [] then
          (case currentSession this of
             Some session \<Rightarrow>
               [SendToolResponse session
                  (map (responseFor dateNow) (enumerate 0 (recognized (callsOf message))))]
           | None \<Rightarrow> [])
        else [])"
proof (cases "toolCall message")
  case None
  then show ?thesis
    by (simp add: handleToolCalls_def callsOf_def recognized_def)
next
  case (Some tc)
  then have c: "callsOf message = functionCalls tc"
    by (simp add: callsOf_def)
  show ?thesis
    unfolding c using Some
    by (simp add: handleToolCalls_def forFunctionCalls_eq enumerate_Nil_iff)
qed

lemma builtResponses_eq:
  "builtResponses this dateNow message
     = map (responseFor dateNow) (enumerate 0 (recognized (callsOf message)))"
  by (simp add: builtResponses_def forFunctionCalls_eq)

lemma handleAudioOutput_cases:
  obtains
    (Skip) "handleAudioOutput U this message currentTime = (this, [])"
  | (Played) buffer where
      "handleAudioOutput U this message currentTime =
         (this\<lparr>nextStartTime := max (nextStartTime this) currentTime + duration buffer\<rparr>,
          [SourceStart (max (nextStartTime this) currentTime) buffer])"
  | (Failed) e where
      "handleAudioOutput U this message currentTime =
         (this\<lparr>nextStartTime := max (nextStartTime this) currentTime\<rparr>,
          [ConsoleError ''Error decoding audio'' e])"
proof (cases "base64AudioOf message")
  case None
  then have "handleAudioOutput U this message currentTime = (this, [])"
    by (simp add: handleAudioOutput_def)
  then show ?thesis by (rule Skip)
next
  case (Some base64Audio)
  note audio = this
  show ?thesis
  proof (cases "outputAudioContext this")
    case None
    with audio have "handleAudioOutput U this message currentTime = (this, [])"
      by (simp add: handleAudioOutput_def)
    then show ?thesis by (rule Skip)
  next
    case (Some ctx)
    note ctx = this
    show ?thesis
    proof (cases "base64Audio = []")
      case True
      with audio ctx have "handleAudioOutput U this message currentTime = (this, [])"
        by (simp add: handleAudioOutput_def)
      then show ?thesis by (rule Skip)
    next
      case False
      note nonempty = this
      show ?thesis
      proof (cases "decodeAudioData U (base64ToUint8Array U base64Audio) ctx")
        case (Inl e)
        with audio ctx nonempty show ?thesis
          by (intro Failed[of e]) (simp add: handleAudioOutput_def)
      next
        case (Inr buffer)
        with audio ctx nonempty show ?thesis
          by (intro Played[of buffer]) (simp add: handleAudioOutput_def)
      qed
    qed
  qed
qed

lemma handleAudioOutput_onReportSubmitted:
  "onReportSubmitted (fst (handleAudioOutput U this message currentTime)) = onReportSubmitted this"
  by (cases rule: handleAudioOutput_cases[of U this message currentTime]) simp_all

lemma handleAudioOutput_currentSession:
  "currentSession (fst (handleAudioOutput U this message currentTime)) = currentSession this"
  by (cases rule: handleAudioOutput_cases[of U this message currentTime]) simp_all

lemma responseFor_ids:
  "map fr_id (map (responseFor dateNow) (enumerate i fcs)) = map fc_id fcs"
  by (induction fcs arbitrary: i) (simp_all add: responseFor_def)

lemma responseFor_names:
  "map fr_name (map (responseFor dateNow) (enumerate i fcs)) = map fc_name fcs"
  by (induction fcs arbitrary: i) (simp_all add: responseFor_def)

lemma handleAudioOutput_no_tool_effects:
  "reportsOf (snd (handleAudioOutput U this message currentTime)) = []"
  "toolResponsesOf (snd (handleAudioOutput U this message currentTime)) = []"
  by (cases rule: handleAudioOutput_cases[of U this message currentTime];
      simp add: reportsOf_def toolResponsesOf_def)+

lemma handleMessage_eq:
  "handleMessage U this message currentTime dateNow =
     (fst (handleAudioOutput U this message currentTime),
      snd (handleAudioOutput U this message currentTime)
      @ handleToolCalls (fst (handleAudioOutput U this message currentTime)) message dateNow)"
  by (simp add: handleMessage_def split_beta)

lemma reportsOf_append: "reportsOf (xs @ ys) = reportsOf xs @ reportsOf ys"
  by (simp add: reportsOf_def)

lemma toolResponsesOf_append: "toolResponsesOf (xs @ ys) = toolResponsesOf xs @ toolResponsesOf ys"
  by (simp add: toolResponsesOf_def)

lemma reportsOf_send:
  "reportsOf (if c then (case d of Some session \<Rightarrow> [SendToolResponse session rs] | None \<Rightarrow> [])
              else []) = []"
  by (cases c; cases d; simp add: reportsOf_def)

lemma toolResponsesOf_send:
  "toolResponsesOf
     (if c then (case d of Some session \<Rightarrow> [SendToolResponse session rs] | None \<Rightarrow> []) else [])
   = (if c \<and> d \<noteq> None then [rs] else [])"
  by (cases c; cases d; simp add: toolResponsesOf_def)

lemma reportsOf_handleMessage:
  "reportsOf (snd (handleMessage U this message currentTime dateNow))
     = (if onReportSubmitted this then map fc_args (recognized (callsOf message)) else [])"
proof -
  let ?a = "handleAudioOutput U this message currentTime"
  have "reportsOf (snd (handleMessage U this message currentTime dateNow))
          = reportsOf (snd ?a) @ reportsOf (handleToolCalls (fst ?a) message dateNow)"
    by (simp add: handleMessage_eq reportsOf_append)
  also have "\<dots> = reportsOf (handleToolCalls (fst ?a) message dateNow)"
    by (simp add: handleAudioOutput_no_tool_effects)
  also have "\<dots> = (if onReportSubmitted (fst ?a)
                     then map fc_args (recognized (callsOf message)) else [])"
    unfolding handleToolCalls_eq reportsOf_append reportsOf_notifications reportsOf_send
    by simp
  finally show ?thesis
    by (simp add: handleAudioOutput_onReportSubmitted)
qed

lemma toolResponsesOf_handleMessage:
  "toolResponsesOf (snd (handleMessage U this message currentTime dateNow))
     = (if recognized (callsOf message) \<noteq> [] \<and> currentSession this \<noteq> None
        then [builtResponses this dateNow message] else [])"
proof -
  let ?a = "handleAudioOutput U this message currentTime"
  have "toolResponsesOf (snd (handleMessage U this message currentTime dateNow))
          = toolResponsesOf (snd ?a) @ toolResponsesOf (handleToolCalls (fst ?a) message dateNow)"
    by (simp add: handleMessage_eq toolResponsesOf_append)
  also have "\<dots> = toolResponsesOf (handleToolCalls (fst ?a) message dateNow)"
    by (simp add: handleAudioOutput_no_tool_effects)
  also have "\<dots> = (if recognized (callsOf message) \<noteq> [] \<and> currentSession (fst ?a) \<noteq> None
                     then [builtResponses this dateNow message] else [])"
    unfolding handleToolCalls_eq toolResponsesOf_append toolResponsesOf_notifications
      toolResponsesOf_send builtResponses_eq
    by simp
  finally show ?thesis
    by (simp add: handleAudioOutput_currentSession)
qed

subsection \<open>Tool calls\<close>

text \<open>
  Claim C1. A message carries k calls named \<^verbatim>\<open>reportEmergency\<close> and m calls of other
  names. With a report callback assigned, \<^verbatim>\<open>handleMessage\<close> builds exactly k
  responses, one per recognized call and in the order of the calls (same ids, same
  names), none for the m others; it calls \<^verbatim>\<open>onReportSubmitted\<close> exactly k times, with
  the arguments of the recognized calls in order; and it sends at most one tool-response
  message, which holds all k responses and goes out only when k is at least 1 (and a
  session handle is stored).
\<close>

theorem tool_call_completeness:
  assumes "onReportSubmitted this"
  shows "length (builtResponses this dateNow message) = length (recognized (callsOf message))
       \<and> map fr_id (builtResponses this dateNow message) = map fc_id (recognized (callsOf message))
       \<and> map fr_name (builtResponses this dateNow message) = map fc_name (recognized (callsOf message))
       \<and> length (builtResponses this dateNow message) + length (unrecognized (callsOf message))
           = length (callsOf message)
       \<and> reportsOf (snd (handleMessage U this message currentTime dateNow))
           = map fc_args (recognized (callsOf message))
       \<and> toolResponsesOf (snd (handleMessage U this message currentTime dateNow))
           = (if 1 \<le> length (recognized (callsOf message)) \<and> currentSession this \<noteq> None
              then [builtResponses this dateNow message] else [])"
proof -
  have len: "length (builtResponses this dateNow message) = length (recognized (callsOf message))"
    by (simp add: builtResponses_eq)
  have ids: "map fr_id (builtResponses this dateNow message) = map fc_id (recognized (callsOf message))"
    unfolding builtResponses_eq by (rule responseFor_ids)
  have names: "map fr_name (builtResponses this dateNow message)
                 = map fc_name (recognized (callsOf message))"
    unfolding builtResponses_eq by (rule responseFor_names)
  have split: "length (builtResponses this dateNow message) + length (unrecognized (callsOf message))
                 = length (callsOf message)"
    unfolding len recognized_def unrecognized_def by (rule sum_length_filter_compl)
  have reports: "reportsOf (snd (handleMessage U this message currentTime dateNow))
                   = map fc_args (recognized (callsOf message))"
    using assms by (simp add: reportsOf_handleMessage)
  have one: "(1 \<le> length (recognized (callsOf message))) = (recognized (callsOf message) \<noteq> [])"
    by (cases "recognized (callsOf message)") simp_all
  have sent: "toolResponsesOf (snd (handleMessage U this message currentTime dateNow))
           = (if 1 \<le> length (recognized (callsOf message)) \<and> currentSession this \<noteq> None
              then [builtResponses this dateNow message] else [])"
    unfolding one by (rule toolResponsesOf_handleMessage)
  from len ids names split reports sent show ?thesis by blast
qed

theorem tool_call_completeness_witness:
  "onReportSubmitted liveService
   \<and> reportsOf (snd (handleMessage sampleUtils liveService floodMessage 0 (\<lambda>i. 1700000000000)))
       = [(''Flood'', ''Water rising'')]
   \<and> toolResponsesOf
         (snd (handleMessage sampleUtils liveService floodMessage 0 (\<lambda>i. 1700000000000)))
       = [[\<lparr>fr_id = ''1'', fr_name = ''reportEmergency'',
            response = \<lparr>result = \<lparr>status = ''success'', ticketId = ''1700000000000''\<rparr>\<rparr>\<rparr>]]"
  using tool_call_completeness
          [of liveService "\<lambda>i. 1700000000000" floodMessage sampleUtils 0]
  by (simp add: liveService_def floodMessage_def builtResponses_def callsOf_def
        recognized_def unrecognized_def toString_def digit_def natToString.simps)

subsection \<open>Ticket identifiers\<close>

lemma natToString_nonempty: "natToString n \<noteq> []"
  by (subst natToString.simps) simp

lemma toString_nonempty: "toString i \<noteq> []"
  by (simp add: toString_def natToString_nonempty)

lemma ticketIdOf_responseFor: "ticketIdOf (responseFor dateNow p) = toString (dateNow (fst p))"
  by (simp add: ticketIdOf_def responseFor_def)

lemma ticketIds_built:
  "map ticketIdOf (builtResponses this dateNow message)
     = map (\<lambda>i. toString (dateNow i)) [0 ..< length (recognized (callsOf message))]"
proof -
  have "map ticketIdOf (builtResponses this dateNow message)
          = map (\<lambda>p. toString (dateNow (fst p))) (enumerate 0 (recognized (callsOf message)))"
    by (simp add: builtResponses_eq ticketIdOf_responseFor comp_def)
  also have "\<dots> = map (\<lambda>i. toString (dateNow i))
                     (map fst (enumerate 0 (recognized (callsOf message))))"
    by (simp only: map_map comp_def)
  finally show ?thesis
    by (simp only: map_fst_enumerate add_0)
qed

lemma digit_is_digit: "digit d \<in> set ''0123456789''"
  by (simp add: digit_def)

lemma digitValue_digit: "d < 10 \<Longrightarrow> digitValue (digit d) = d"
  by (simp add: digit_def digitValue_def)

lemma digit_zero_iff: "d < 10 \<Longrightarrow> digit d = CHR ''0'' \<longleftrightarrow> d = 0"
  by (simp add: digit_def)

lemma decimalNat_snoc: "decimalNat (s @ [c]) = 10 * decimalNat s + digitValue c"
  by (simp add: decimalNat_def)

lemma decimalNat_natToString: "decimalNat (natToString n) = n"
proof (induction n rule: natToString.induct)
  case (1 n)
  show ?case
  proof (cases "n < 10")
    case True
    then show ?thesis
      by (subst natToString.simps) (simp add: decimalNat_def digitValue_digit)
  next
    case False
    with "1" have "decimalNat (natToString (n div 10)) = n div 10" by simp
    with False show ?thesis
      by (subst natToString.simps) (simp add: decimalNat_snoc digitValue_digit)
  qed
qed

lemma natToString_digits: "list_all (\<lambda>c. c \<in> set ''0123456789'') (natToString n)"
proof (induction n rule: natToString.induct)
  case (1 n)
  show ?case
  proof (cases "n < 10")
    case True
    then show ?thesis
      using digit_is_digit[of n] by (subst natToString.simps) simp
  next
    case False
    with "1" have "list_all (\<lambda>c. c \<in> set ''0123456789'') (natToString (n div 10))" by simp
    with False show ?thesis
      using digit_is_digit[of "n mod 10"] by (subst natToString.simps) simp
  qed
qed

lemma natToString_hd_zero: "hd (natToString n) = CHR ''0'' \<Longrightarrow> n = 0"
proof (induction n rule: natToString.induct)
  case (1 n)
  show ?case
  proof (cases "n < 10")
    case True
    with "1.prems" show ?thesis
      by (subst (asm) natToString.simps) (simp add: digit_zero_iff)
  next
    case False
    then have "natToString n = natToString (n div 10) @ [digit (n mod 10)]"
      by (subst natToString.simps) simp
    with "1.prems" have "hd (natToString (n div 10)) = CHR ''0''"
      by (simp add: hd_append natToString_nonempty)
    with "1.IH"[OF False] have "n div 10 = 0" .
    with False show ?thesis by simp
  qed
qed

lemma natToString_zero: "natToString 0 = ''0''"
  by (subst natToString.simps) (simp add: digit_def)

lemma natToString_hd_not_minus: "hd (natToString n) \<noteq> CHR ''-''"
proof -
  obtain c cs where s: "natToString n = c # cs"
    using natToString_nonempty[of n] by (cases "natToString n") auto
  from natToString_digits[of n] have "c \<in> set ''0123456789''"
    by (simp add: s)
  then show ?thesis
    by (auto simp: s)
qed

lemma unsignedDecimal_natToString: "unsignedDecimal (natToString n)"
proof -
  have "natToString n = ''0''" if "hd (natToString n) = CHR ''0''"
    using natToString_hd_zero[OF that] natToString_zero by simp
  then show ?thesis
    unfolding unsignedDecimal_def
    using natToString_nonempty[of n] natToString_digits[of n] by simp
qed

lemma natToString_eq_zero: "natToString n = ''0'' \<Longrightarrow> n = 0"
  by (rule natToString_hd_zero) simp

lemma signedDecimal_toString: "signedDecimal (toString i)"
proof (cases "i < 0")
  case True
  then have "nat (- i) \<noteq> 0" by simp
  then have "natToString (nat (- i)) \<noteq> ''0''"
    using natToString_eq_zero[of "nat (- i)"] by auto
  with True show ?thesis
    by (simp add: signedDecimal_def toString_def unsignedDecimal_natToString)
next
  case False
  then show ?thesis
    by (simp add: signedDecimal_def toString_def unsignedDecimal_natToString
          natToString_hd_not_minus)
qed

lemma decimalInt_toString: "decimalInt (toString i) = i"
proof (cases "i < 0")
  case True
  then show ?thesis
    by (simp add: decimalInt_def toString_def decimalNat_natToString)
next
  case False
  then show ?thesis
    by (simp add: decimalInt_def toString_def decimalNat_natToString natToString_hd_not_minus)
qed

lemma toString_inject: "toString i = toString j \<longleftrightarrow> i = j"
proof
  assume "toString i = toString j"
  then have "decimalInt (toString i) = decimalInt (toString j)" by simp
  then show "i = j" by (simp only: decimalInt_toString)
qed simp

lemma ticketId_nth:
  assumes "i < length (recognized (callsOf message))"
  shows "ticketIdOf (builtResponses this dateNow message ! i) = toString (dateNow i)"
proof -
  have len: "length (builtResponses this dateNow message) = length (recognized (callsOf message))"
    by (simp add: builtResponses_eq)
  have "ticketIdOf (builtResponses this dateNow message ! i)
          = map ticketIdOf (builtResponses this dateNow message) ! i"
    using assms len by simp
  also have "\<dots> = map (\<lambda>i. toString (dateNow i)) [0 ..< length (recognized (callsOf message))] ! i"
    by (simp only: ticketIds_built)
  also have "\<dots> = toString (dateNow i)"
    using assms by simp
  finally show ?thesis .
qed

text \<open>
  Claim C9. The ticket identifier of the i-th response built for a message is the i-th
  reading of \<^verbatim>\<open>Date.now()\<close> written in decimal: it is a decimal numeral (digits only,
  no superfluous leading zero, a minus sign for a negative reading) whose value is that
  reading, so it is never the empty string. Two identifiers of one message are equal
  exactly when their two readings are equal; in particular, when all readings taken for
  one message are the same instant, all its responses carry the same identifier, so
  identifiers are not unique per call. Whatever the handler sends is the list of
  responses so built.
\<close>

theorem ticketId_from_clock:
  "map ticketIdOf (builtResponses this dateNow message)
     = map (\<lambda>i. toString (dateNow i)) [0 ..< length (recognized (callsOf message))]
   \<and> (\<forall>i < length (recognized (callsOf message)).
         signedDecimal (ticketIdOf (builtResponses this dateNow message ! i))
         \<and> decimalInt (ticketIdOf (builtResponses this dateNow message ! i)) = dateNow i)
   \<and> (\<forall>r \<in> set (builtResponses this dateNow message). ticketIdOf r \<noteq> [])
   \<and> (\<forall>i < length (recognized (callsOf message)).
       \<forall>j < length (recognized (callsOf message)).
         (ticketIdOf (builtResponses this dateNow message ! i)
            = ticketIdOf (builtResponses this dateNow message ! j))
         = (dateNow i = dateNow j))
   \<and> ((\<forall>i. dateNow i = t) \<longrightarrow>
        (\<forall>r \<in> set (builtResponses this dateNow message). ticketIdOf r = toString t))
   \<and> set (toolResponsesOf (snd (handleMessage U this message currentTime dateNow)))
        \<subseteq> {builtResponses this dateNow message}"
proof -
  let ?k = "length (recognized (callsOf message))"
  let ?built = "builtResponses this dateNow message"
  have ids: "map ticketIdOf ?built = map (\<lambda>i. toString (dateNow i)) [0 ..< ?k]"
    by (rule ticketIds_built)
  have decimal: "\<forall>i < ?k. signedDecimal (ticketIdOf (?built ! i))
                          \<and> decimalInt (ticketIdOf (?built ! i)) = dateNow i"
    by (simp add: ticketId_nth signedDecimal_toString decimalInt_toString)
  have mem: "ticketIdOf r \<in> set (map (\<lambda>i. toString (dateNow i)) [0 ..< ?k])"
    if "r \<in> set ?built" for r
  proof -
    from that have "ticketIdOf r \<in> set (map ticketIdOf ?built)"
      by simp
    then show ?thesis by (simp only: ids)
  qed
  have nonempty: "\<forall>r \<in> set ?built. ticketIdOf r \<noteq> []"
  proof
    fix r assume "r \<in> set ?built"
    from mem[OF this] obtain i where "ticketIdOf r = toString (dateNow i)"
      by auto
    then show "ticketIdOf r \<noteq> []"
      by (simp add: toString_nonempty)
  qed
  have equal: "\<forall>i < ?k. \<forall>j < ?k.
         (ticketIdOf (?built ! i) = ticketIdOf (?built ! j)) = (dateNow i = dateNow j)"
    by (simp add: ticketId_nth toString_inject)
  have same: "(\<forall>i. dateNow i = t) \<longrightarrow> (\<forall>r \<in> set ?built. ticketIdOf r = toString t)"
  proof (intro impI ballI)
    fix r assume c: "\<forall>i. dateNow i = t" and "r \<in> set ?built"
    from mem[OF this(2)] c show "ticketIdOf r = toString t"
      by auto
  qed
  have sent: "set (toolResponsesOf (snd (handleMessage U this message currentTime dateNow)))
        \<subseteq> {?built}"
    by (auto simp: toolResponsesOf_handleMessage)
  from ids decimal nonempty equal same sent show ?thesis by blast
qed

theorem ticketId_from_clock_witness:
  "map ticketIdOf (builtResponses liveService (\<lambda>i. 1700000000000) twoReports)
     = [''1700000000000'', ''1700000000000'']
   \<and> map ticketIdOf (builtResponses liveService (\<lambda>i. 1700000000000 + int i) twoReports)
     = [''1700000000000'', ''1700000000001'']
   \<and> signedDecimal ''1700000000001''
   \<and> decimalInt ''1700000000001'' = 1700000000001
   \<and> toolResponsesOf
        (snd (handleMessage sampleUtils liveService twoReports 0 (\<lambda>i. 1700000000000)))
     = [builtResponses liveService (\<lambda>i. 1700000000000) twoReports]"
proof -
  have k: "length (recognized (callsOf twoReports)) = 2"
    by (simp add: twoReports_def callsOf_def recognized_def)
  note same = ticketId_from_clock
          [where this = liveService and dateNow = "\<lambda>i. 1700000000000"
             and message = twoReports and t = 1700000000000 and U = sampleUtils
             and currentTime = 0]
  note apart = ticketId_from_clock
          [where this = liveService and dateNow = "\<lambda>i. 1700000000000 + int i"
             and message = twoReports and t = 0 and U = sampleUtils and currentTime = 0]
  have a: "map ticketIdOf (builtResponses liveService (\<lambda>i. 1700000000000) twoReports)
     = [''1700000000000'', ''1700000000000'']"
    using same[THEN conjunct1]
    by (simp add: k toString_def digit_def natToString.simps upt_conv_Cons)
  have b: "map ticketIdOf (builtResponses liveService (\<lambda>i. 1700000000000 + int i) twoReports)
     = [''1700000000000'', ''1700000000001'']"
    using apart[THEN conjunct1]
    by (simp add: k toString_def digit_def natToString.simps upt_conv_Cons)
  have one: "(1::nat) < length (recognized (callsOf twoReports))"
    by (simp add: k)
  have nth: "ticketIdOf (builtResponses liveService (\<lambda>i. 1700000000000 + int i) twoReports ! 1)
               = ''1700000000001''"
    using arg_cong[OF b, of "\<lambda>xs. xs ! 1"] one
    by (simp add: builtResponses_eq)
  from apart[THEN conjunct2, THEN conjunct1, rule_format, OF one]
  have c: "signedDecimal ''1700000000001'' \<and> decimalInt ''1700000000001'' = 1700000000001"
    by (simp only: nth) simp
  have d: "toolResponsesOf
        (snd (handleMessage sampleUtils liveService twoReports 0 (\<lambda>i. 1700000000000)))
     = [builtResponses liveService (\<lambda>i. 1700000000000) twoReports]"
    by (simp add: toolResponsesOf_handleMessage k liveService_def
          length_greater_0_conv[symmetric] del: length_greater_0_conv)
  from a b c d show ?thesis by blast
qed

subsection \<open>Playback scheduling\<close>

lemma duration_nonneg: "0 \<le> duration b"
  by (simp add: duration_def)

lemma handleAudioOutput_decoded:
  "handleAudioOutput U this message currentTime =
     (case decodedChunk U this message of
        None \<Rightarrow> (this, [])
      | Some (Inr buffer) \<Rightarrow>
          (this\<lparr>nextStartTime := max (nextStartTime this) currentTime + duration buffer\<rparr>,
           [SourceStart (max (nextStartTime this) currentTime) buffer])
      | Some (Inl e) \<Rightarrow>
          (this\<lparr>nextStartTime := max (nextStartTime this) currentTime\<rparr>,
           [ConsoleError ''Error decoding audio'' e]))"
  by (auto simp: handleAudioOutput_def decodedChunk_def split: option.splits sum.splits)

lemma startsOf_append: "startsOf (xs @ ys) = startsOf xs @ startsOf ys"
  by (simp add: startsOf_def)

lemma startsOf_send:
  "startsOf (if c then (case d of Some session \<Rightarrow> [SendToolResponse session rs] | None \<Rightarrow> [])
             else []) = []"
  by (cases c; cases d; simp add: startsOf_def)

lemma startsOf_handleToolCalls: "startsOf (handleToolCalls this message dateNow) = []"
  unfolding handleToolCalls_eq startsOf_append startsOf_notifications startsOf_send
  by simp

lemma startsOf_handleMessage:
  "startsOf (snd (handleMessage U this message currentTime dateNow))
     = (case decodedChunk U this message of
          Some (Inr buffer) \<Rightarrow> [(max (nextStartTime this) currentTime, buffer)]
        | _ \<Rightarrow> [])"
proof -
  have "startsOf (snd (handleMessage U this message currentTime dateNow))
          = startsOf (snd (handleAudioOutput U this message currentTime))"
    by (simp add: handleMessage_eq startsOf_append startsOf_handleToolCalls)
  also have "\<dots> = (case decodedChunk U this message of
          Some (Inr buffer) \<Rightarrow> [(max (nextStartTime this) currentTime, buffer)]
        | _ \<Rightarrow> [])"
    by (cases "decodedChunk U this message")
       (auto simp: handleAudioOutput_decoded startsOf_def split: sum.splits)
  finally show ?thesis .
qed

lemma state_handleMessage:
  "fst (handleMessage U this message currentTime dateNow)
     = (case decodedChunk U this message of
          None \<Rightarrow> this
        | Some (Inr buffer) \<Rightarrow>
            this\<lparr>nextStartTime := max (nextStartTime this) currentTime + duration buffer\<rparr>
        | Some (Inl e) \<Rightarrow> this\<lparr>nextStartTime := max (nextStartTime this) currentTime\<rparr>)"
  by (cases "decodedChunk U this message")
     (auto simp: handleMessage_eq handleAudioOutput_decoded split: sum.splits)

lemma decodedChunk_cong:
  "outputAudioContext this' = outputAudioContext this
     \<Longrightarrow> decodedChunk U this' message = decodedChunk U this message"
  by (simp add: decodedChunk_def)

lemma outputAudioContext_handleMessage:
  "outputAudioContext (fst (handleMessage U this message currentTime dateNow))
     = outputAudioContext this"
  by (cases "decodedChunk U this message")
     (auto simp: state_handleMessage split: sum.splits)

lemma cursor_handleMessage:
  "nextStartTime this \<le> nextStartTime (fst (handleMessage U this message currentTime dateNow))"
proof (cases "decodedChunk U this message")
  case None
  then show ?thesis by (simp add: state_handleMessage)
next
  case (Some r)
  show ?thesis
  proof (cases r)
    case (Inl e)
    with Some show ?thesis by (simp add: state_handleMessage)
  next
    case (Inr buffer)
    have "nextStartTime this \<le> max (nextStartTime this) currentTime + duration buffer"
      using duration_nonneg[of buffer] by linarith
    with Some Inr show ?thesis by (simp add: state_handleMessage)
  qed
qed

lemma schedule_lower: "\<forall>p \<in> set (schedule cursor xs). cursor \<le> fst p"
proof (induction xs arbitrary: cursor)
  case Nil
  show ?case by simp
next
  case (Cons x xs)
  obtain c b where x: "x = (c, b)" by (cases x)
  have "cursor \<le> max cursor c + duration b"
    using duration_nonneg[of b] by linarith
  with Cons.IH[of "max cursor c + duration b"] show ?case
    by (auto simp: x)
qed

lemma schedule_sorted: "sorted (map fst (schedule cursor xs))"
proof (induction xs arbitrary: cursor)
  case Nil
  show ?case by simp
next
  case (Cons x xs)
  obtain c b where x: "x = (c, b)" by (cases x)
  have "max cursor c \<le> fst p" if "p \<in> set (schedule (max cursor c + duration b) xs)" for p
  proof -
    from schedule_lower that have "max cursor c + duration b \<le> fst p" by blast
    with duration_nonneg[of b] show ?thesis by linarith
  qed
  with Cons.IH[of "max cursor c + duration b"] show ?case
    by (auto simp: x)
qed

lemma schedule_length: "length (schedule cursor xs) = length xs"
  by (induction xs arbitrary: cursor) auto

lemma schedule_buffers: "map snd (schedule cursor xs) = map snd xs"
  by (induction xs arbitrary: cursor) auto

lemma schedule_back_to_back:
  "Suc i < length xs
   \<Longrightarrow> fst (xs ! Suc i) \<le> fst (schedule cursor xs ! i) + duration (snd (xs ! i))
   \<Longrightarrow> fst (schedule cursor xs ! Suc i)
       = fst (schedule cursor xs ! i) + duration (snd (xs ! i))"
proof (induction xs arbitrary: cursor i)
  case Nil
  then show ?case by simp
next
  case (Cons x xs)
  obtain c b where x: "x = (c, b)" by (cases x)
  show ?case
  proof (cases i)
    case 0
    with Cons.prems obtain y ys where xs: "xs = y # ys" by (cases xs) auto
    obtain c' b' where y: "y = (c', b')" by (cases y)
    from Cons.prems show ?thesis
      by (simp add: 0 x xs y max_def)
  next
    case (Suc j)
    with Cons.prems Cons.IH[of j "max cursor c + duration b"] show ?thesis
      by (simp add: x)
  qed
qed

lemma schedule_stall:
  "Suc i < length xs
   \<Longrightarrow> fst (schedule cursor xs ! i) + duration (snd (xs ! i)) < fst (xs ! Suc i)
   \<Longrightarrow> fst (schedule cursor xs ! Suc i) = fst (xs ! Suc i)"
proof (induction xs arbitrary: cursor i)
  case Nil
  then show ?case by simp
next
  case (Cons x xs)
  obtain c b where x: "x = (c, b)" by (cases x)
  show ?case
  proof (cases i)
    case 0
    with Cons.prems obtain y ys where xs: "xs = y # ys" by (cases xs) auto
    obtain c' b' where y: "y = (c', b')" by (cases y)
    from Cons.prems show ?thesis
      by (simp add: 0 x xs y max_def)
  next
    case (Suc j)
    with Cons.prems Cons.IH[of j "max cursor c + duration b"] show ?thesis
      by (simp add: x)
  qed
qed

lemma handleMessages_schedule:
  "map (\<lambda>a. decodedChunk U this (fst a)) arrivals = map (\<lambda>b. Some (Inr b)) buffers
   \<Longrightarrow> startsOf (snd (handleMessages U this arrivals))
       = schedule (nextStartTime this) (zip (clocksOf arrivals) buffers)"
proof (induction arrivals arbitrary: this buffers)
  case Nil
  then show ?case by (simp add: startsOf_def clocksOf_def)
next
  case (Cons a arrivals)
  obtain message currentTime dateNow where a: "a = (message, currentTime, dateNow)"
    by (cases a)
  from Cons.prems obtain buffer rest where buffers: "buffers = buffer # rest"
    by (cases buffers) auto
  from Cons.prems have ok: "decodedChunk U this message = Some (Inr buffer)"
    and tl: "map (\<lambda>a. decodedChunk U this (fst a)) arrivals = map (\<lambda>b. Some (Inr b)) rest"
    by (simp_all add: a buffers)
  let ?this1 = "fst (handleMessage U this message currentTime dateNow)"
  have same: "decodedChunk U ?this1 m = decodedChunk U this m" for m :: "'a LiveServerMessage"
    by (rule decodedChunk_cong) (rule outputAudioContext_handleMessage)
  have next1: "nextStartTime ?this1 = max (nextStartTime this) currentTime + duration buffer"
    by (simp add: state_handleMessage ok)
  have "startsOf (snd (handleMessages U ?this1 arrivals))
          = schedule (nextStartTime ?this1) (zip (clocksOf arrivals) rest)"
    by (rule Cons.IH) (simp add: same tl)
  then show ?case
    by (simp add: a buffers split_beta startsOf_append startsOf_handleMessage ok next1
          clocksOf_def)
qed

lemma cursor_handleMessages:
  "nextStartTime this \<le> nextStartTime (fst (handleMessages U this arrivals))"
proof (induction arrivals arbitrary: this)
  case Nil
  show ?case by simp
next
  case (Cons a arrivals)
  obtain message currentTime dateNow where a: "a = (message, currentTime, dateNow)"
    by (cases a)
  let ?this1 = "fst (handleMessage U this message currentTime dateNow)"
  have "nextStartTime this \<le> nextStartTime ?this1"
    by (rule cursor_handleMessage)
  also have "\<dots> \<le> nextStartTime (fst (handleMessages U ?this1 arrivals))"
    by (rule Cons.IH)
  finally show ?case
    by (simp add: a split_beta)
qed

text \<open>
  Claim C3. A sequence of inbound chunks that all decode, with buffers b1..bn, is
  handled in arrival order. Every chunk is started once, in that order; the start times
  are those of the scheduling rule, they never decrease, and neither does the cursor;
  and whenever the clock read for chunk i+1 has not passed the start of chunk i plus its
  duration, chunk i+1 starts exactly there: the chunks play back to back.
\<close>

theorem playback_monotonicity:
  assumes "map (\<lambda>a. decodedChunk U this (fst a)) arrivals = map (\<lambda>b. Some (Inr b)) buffers"
  shows "startsOf (snd (handleMessages U this arrivals))
           = schedule (nextStartTime this) (zip (clocksOf arrivals) buffers)
       \<and> map snd (startsOf (snd (handleMessages U this arrivals))) = buffers
       \<and> sorted (map fst (startsOf (snd (handleMessages U this arrivals))))
       \<and> nextStartTime this \<le> nextStartTime (fst (handleMessages U this arrivals))
       \<and> (\<forall>i. Suc i < length arrivals \<longrightarrow>
              clocksOf arrivals ! Suc i
                \<le> fst (startsOf (snd (handleMessages U this arrivals)) ! i) + duration (buffers ! i)
              \<longrightarrow> fst (startsOf (snd (handleMessages U this arrivals)) ! Suc i)
                   = fst (startsOf (snd (handleMessages U this arrivals)) ! i)
                     + duration (buffers ! i))"
proof -
  let ?xs = "zip (clocksOf arrivals) buffers"
  have len: "length buffers = length arrivals"
    using map_eq_imp_length_eq[OF assms] by simp
  have lenc: "length (clocksOf arrivals) = length arrivals"
    by (simp add: clocksOf_def)
  have eq: "startsOf (snd (handleMessages U this arrivals)) = schedule (nextStartTime this) ?xs"
    using assms by (rule handleMessages_schedule)
  have bufs: "map snd (startsOf (snd (handleMessages U this arrivals))) = buffers"
    by (simp add: eq schedule_buffers len lenc)
  have sorted: "sorted (map fst (startsOf (snd (handleMessages U this arrivals))))"
    by (simp only: eq schedule_sorted)
  have cursor: "nextStartTime this \<le> nextStartTime (fst (handleMessages U this arrivals))"
    by (rule cursor_handleMessages)
  have chain: "fst (schedule (nextStartTime this) ?xs ! Suc i)
                 = fst (schedule (nextStartTime this) ?xs ! i) + duration (buffers ! i)"
    if i: "Suc i < length arrivals"
      and c: "clocksOf arrivals ! Suc i
                \<le> fst (schedule (nextStartTime this) ?xs ! i) + duration (buffers ! i)"
    for i
  proof -
    from i have l: "Suc i < length ?xs" by (simp add: len lenc)
    from i have n0: "?xs ! i = (clocksOf arrivals ! i, buffers ! i)"
      by (simp add: len lenc)
    from i have n1: "?xs ! Suc i = (clocksOf arrivals ! Suc i, buffers ! Suc i)"
      by (simp add: len lenc)
    from c have "fst (?xs ! Suc i)
                   \<le> fst (schedule (nextStartTime this) ?xs ! i) + duration (snd (?xs ! i))"
      by (simp only: n0 n1 fst_conv snd_conv)
    from schedule_back_to_back[OF l this] show ?thesis
      by (simp only: n0 snd_conv)
  qed
  from eq bufs sorted cursor chain show ?thesis
    by (simp only: eq) blast
qed

theorem playback_monotonicity_witness:
  "map (\<lambda>a. decodedChunk sampleUtils liveService (fst a)) threeChunks
     = map (\<lambda>b. Some (Inr b))
         [\<lparr>frames = 2, rate = 24000\<rparr>, \<lparr>frames = 4, rate = 24000\<rparr>, \<lparr>frames = 2, rate = 24000\<rparr>]
   \<and> map fst (startsOf (snd (handleMessages sampleUtils liveService threeChunks)))
       = [1, 1 + 1 / 12000, 5]
   \<and> sorted (map fst (startsOf (snd (handleMessages sampleUtils liveService threeChunks))))"
proof -
  have h: "map (\<lambda>a. decodedChunk sampleUtils liveService (fst a)) threeChunks
     = map (\<lambda>b. Some (Inr b))
         [\<lparr>frames = 2, rate = 24000\<rparr>, \<lparr>frames = 4, rate = 24000\<rparr>, \<lparr>frames = 2, rate = 24000\<rparr>]"
    by (simp add: threeChunks_def decodedChunk_def audioMessage_def base64AudioOf_def
          liveService_def sampleUtils_def)
  from playback_monotonicity[OF h] h show ?thesis
    by (simp add: threeChunks_def clocksOf_def liveService_def duration_def)
qed

text \<open>
  Claim C4. When the output clock read at handling has passed the cursor, a chunk that
  decodes is started at that clock reading, not at the stale cursor; in every case its
  start is the later of the two, so it is never before the clock reading.
\<close>

theorem stall_recovery:
  assumes "decodedChunk U this message = Some (Inr buffer)"
  shows "startsOf (snd (handleMessage U this message currentTime dateNow))
           = [(max (nextStartTime this) currentTime, buffer)]
       \<and> (\<forall>p \<in> set (startsOf (snd (handleMessage U this message currentTime dateNow))).
             currentTime \<le> fst p)
       \<and> (nextStartTime this < currentTime \<longrightarrow>
             startsOf (snd (handleMessage U this message currentTime dateNow))
               = [(currentTime, buffer)]
             \<and> nextStartTime (fst (handleMessage U this message currentTime dateNow))
               = currentTime + duration buffer)"
  using assms by (simp add: startsOf_handleMessage state_handleMessage max_def)

theorem stall_recovery_witness:
  "decodedChunk sampleUtils (liveService\<lparr>nextStartTime := 2\<rparr>) (audioMessage ''AAAA'')
     = Some (Inr \<lparr>frames = 2, rate = 24000\<rparr>)
   \<and> nextStartTime (liveService\<lparr>nextStartTime := 2\<rparr>) < 5
   \<and> startsOf (snd (handleMessage sampleUtils (liveService\<lparr>nextStartTime := 2\<rparr>)
                     (audioMessage ''AAAA'') 5 (\<lambda>i. 0)))
       = [(5, \<lparr>frames = 2, rate = 24000\<rparr>)]"
proof -
  have h: "decodedChunk sampleUtils (liveService\<lparr>nextStartTime := 2\<rparr>) (audioMessage ''AAAA'')
     = Some (Inr \<lparr>frames = 2, rate = 24000\<rparr>)"
    by (simp add: decodedChunk_def audioMessage_def base64AudioOf_def liveService_def
          sampleUtils_def)
  from stall_recovery[OF h, of 5 "\<lambda>i. 0"] h show ?thesis
    by simp
qed

subsection \<open>A chunk that fails to decode\<close>

lemma handleToolCalls_cong:
  "onReportSubmitted this' = onReportSubmitted this
   \<Longrightarrow> currentSession this' = currentSession this
   \<Longrightarrow> handleToolCalls this' message dateNow = handleToolCalls this message dateNow"
  by (simp add: handleToolCalls_eq)

lemma statusesOf_append: "statusesOf (xs @ ys) = statusesOf xs @ statusesOf ys"
  by (simp add: statusesOf_def)

lemma statusesOf_notifications:
  "statusesOf (concat (map (\<lambda>fc. notify cb (ReportSubmitted (fc_args fc))) fcs)) = []"
  by (induction fcs) (simp_all add: statusesOf_def notify_def)

lemma statusesOf_send:
  "statusesOf (if c then (case d of Some session \<Rightarrow> [SendToolResponse session rs] | None \<Rightarrow> [])
               else []) = []"
  by (cases c; cases d; simp add: statusesOf_def)

lemma statusesOf_handleToolCalls: "statusesOf (handleToolCalls this message dateNow) = []"
  unfolding handleToolCalls_eq statusesOf_append statusesOf_notifications statusesOf_send
  by simp

lemma effects_failed_decode:
  assumes "decodedChunk U this message = Some (Inl e)"
  shows "snd (handleMessage U this message currentTime dateNow)
           = ConsoleError ''Error decoding audio'' e # handleToolCalls this message dateNow"
proof -
  have "handleToolCalls (this\<lparr>nextStartTime := max (nextStartTime this) currentTime\<rparr>)
          message dateNow = handleToolCalls this message dateNow"
    by (rule handleToolCalls_cong) simp_all
  with assms show ?thesis
    by (simp add: handleMessage_eq handleAudioOutput_decoded)
qed

text \<open>
  Claim C7. When \<^verbatim>\<open>decodeAudioData\<close> fails for the chunk of a message, the handler
  still completes: it logs the error, starts no source for that chunk, goes on to the
  tool calls of the same message, emits no status change and releases nothing (the
  session handle and the contexts stay as they were), and a later chunk that decodes is
  started as usual, at the later of the cursor and the clock.
\<close>

theorem decode_failure_recovered:
  assumes "decodedChunk U this message = Some (Inl e)"
  shows "snd (handleMessage U this message currentTime dateNow)
           = ConsoleError ''Error decoding audio'' e # handleToolCalls this message dateNow
       \<and> startsOf (snd (handleMessage U this message currentTime dateNow)) = []
       \<and> statusesOf (snd (handleMessage U this message currentTime dateNow)) = []
       \<and> currentSession (fst (handleMessage U this message currentTime dateNow))
           = currentSession this
       \<and> outputAudioContext (fst (handleMessage U this message currentTime dateNow))
           = outputAudioContext this
       \<and> (\<forall>message' buffer' currentTime' dateNow'.
             decodedChunk U this message' = Some (Inr buffer') \<longrightarrow>
             startsOf (snd (handleMessage U
                              (fst (handleMessage U this message currentTime dateNow))
                              (message' :: 'a LiveServerMessage) currentTime' dateNow'))
               = [(max (max (nextStartTime this) currentTime) currentTime', buffer')])"
proof -
  let ?this1 = "fst (handleMessage U this message currentTime dateNow)"
  have effects: "snd (handleMessage U this message currentTime dateNow)
           = ConsoleError ''Error decoding audio'' e # handleToolCalls this message dateNow"
    using assms by (rule effects_failed_decode)
  have starts: "startsOf (snd (handleMessage U this message currentTime dateNow)) = []"
    using assms by (simp add: startsOf_handleMessage)
  have statuses: "statusesOf (snd (handleMessage U this message currentTime dateNow)) = []"
    using statusesOf_handleToolCalls[of this message dateNow]
    by (simp add: effects statusesOf_def)
  have this1: "?this1 = this\<lparr>nextStartTime := max (nextStartTime this) currentTime\<rparr>"
    using assms by (simp add: state_handleMessage)
  have session: "currentSession ?this1 = currentSession this"
    by (simp add: this1)
  have ctx: "outputAudioContext ?this1 = outputAudioContext this"
    by (simp add: this1)
  have later: "startsOf (snd (handleMessage U ?this1 message' currentTime' dateNow'))
                 = [(max (max (nextStartTime this) currentTime) currentTime', buffer')]"
    if "decodedChunk U this message' = Some (Inr buffer')"
    for message' :: "'a LiveServerMessage" and buffer' currentTime' dateNow'
  proof -
    have "decodedChunk U ?this1 message' = Some (Inr buffer')"
      using that decodedChunk_cong[OF ctx, of U message'] by simp
    then have "startsOf (snd (handleMessage U ?this1 message' currentTime' dateNow'))
                 = [(max (nextStartTime ?this1) currentTime', buffer')]"
      by (simp add: startsOf_handleMessage)
    also have "nextStartTime ?this1 = max (nextStartTime this) currentTime"
      by (simp add: this1)
    finally show ?thesis .
  qed
  from effects starts statuses session ctx later show ?thesis
    by blast
qed

theorem decode_failure_recovered_witness:
  "decodedChunk sampleUtils liveService (audioMessage ''AAA'') = Some (Inl (Error ''odd byte length''))
   \<and> snd (handleMessage sampleUtils liveService (audioMessage ''AAA'') 5 (\<lambda>i. 0))
       = [ConsoleError ''Error decoding audio'' (Error ''odd byte length'')]
   \<and> startsOf (snd (handleMessage sampleUtils
                      (fst (handleMessage sampleUtils liveService (audioMessage ''AAA'') 5 (\<lambda>i. 0)))
                      (audioMessage ''AAAA'') 6 (\<lambda>i. 0)))
       = [(6, \<lparr>frames = 2, rate = 24000\<rparr>)]"
proof -
  have h: "decodedChunk sampleUtils liveService (audioMessage ''AAA'')
             = Some (Inl (Error ''odd byte length''))"
    by (simp add: decodedChunk_def audioMessage_def base64AudioOf_def liveService_def
          sampleUtils_def)
  have g: "decodedChunk sampleUtils liveService (audioMessage ''AAAA'')
             = Some (Inr \<lparr>frames = 2, rate = 24000\<rparr>)"
    by (simp add: decodedChunk_def audioMessage_def base64AudioOf_def liveService_def
          sampleUtils_def)
  have t: "handleToolCalls liveService (audioMessage ''AAA'') (\<lambda>i. 0) = []"
    by (simp add: handleToolCalls_def audioMessage_def)
  note r = decode_failure_recovered[OF h, of 5 "\<lambda>i. 0"]
  have effects: "snd (handleMessage sampleUtils liveService (audioMessage ''AAA'') 5 (\<lambda>i. 0))
       = [ConsoleError ''Error decoding audio'' (Error ''odd byte length'')]"
    using r[THEN conjunct1] by (simp add: t)
  have later: "startsOf (snd (handleMessage sampleUtils
                      (fst (handleMessage sampleUtils liveService (audioMessage ''AAA'') 5 (\<lambda>i. 0)))
                      (audioMessage ''AAAA'') 6 (\<lambda>i. 0)))
       = [(6, \<lparr>frames = 2, rate = 24000\<rparr>)]"
    using r[THEN conjunct2, THEN conjunct2, THEN conjunct2, THEN conjunct2, THEN conjunct2,
            rule_format, OF g, of 6 "\<lambda>i. 0"]
    by (simp add: liveService_def)
  from h effects later show ?thesis by blast
qed

text \<open>
  Claim C10. On the path where decoding fails, the cursor is set to the later of its
  old value and the clock reading (so it may change) and gets no duration added; every
  other field of the service is left as it was.
\<close>

theorem failed_decode_frame:
  assumes "decodedChunk U this message = Some (Inl e)"
  shows "fst (handleMessage U this message currentTime dateNow)
           = this\<lparr>nextStartTime := max (nextStartTime this) currentTime\<rparr>"
  using assms by (simp add: state_handleMessage)

theorem failed_decode_frame_witness:
  "decodedChunk sampleUtils liveService (audioMessage ''AAA'') = Some (Inl (Error ''odd byte length''))
   \<and> fst (handleMessage sampleUtils liveService (audioMessage ''AAA'') 5 (\<lambda>i. 0))
       = liveService\<lparr>nextStartTime := 5\<rparr>
   \<and> nextStartTime liveService = 0"
proof -
  have h: "decodedChunk sampleUtils liveService (audioMessage ''AAA'')
             = Some (Inl (Error ''odd byte length''))"
    by (simp add: decodedChunk_def audioMessage_def base64AudioOf_def liveService_def
          sampleUtils_def)
  from failed_decode_frame[OF h, of 5 "\<lambda>i. 0"] h show ?thesis
    by (simp add: liveService_def)
qed

subsection \<open>Capture\<close>

lemma sumLoop_eq: "sumLoop xs acc = acc + sum_list (map (\<lambda>x. x * x) xs)"
  by (induction xs arbitrary: acc) simp_all

lemma square_le_one:
  fixes x :: real
  assumes "- 1 \<le> x" and "x \<le> 1"
  shows "x * x \<le> 1"
proof -
  have "x * x = \<bar>x\<bar> * \<bar>x\<bar>" by simp
  also have "\<dots> \<le> 1 * 1"
    using assms by (intro mult_mono) auto
  finally show ?thesis by simp
qed

lemma sum_squares_bounds:
  fixes xs :: "real list"
  assumes "\<forall>x \<in> set xs. - 1 \<le> x \<and> x \<le> 1"
  shows "0 \<le> sum_list (map (\<lambda>x. x * x) xs)"
    and "sum_list (map (\<lambda>x. x * x) xs) \<le> real (length xs)"
proof -
  show "0 \<le> sum_list (map (\<lambda>x. x * x) xs)"
    by (rule sum_list_nonneg) auto
  from assms show "sum_list (map (\<lambda>x. x * x) xs) \<le> real (length xs)"
  proof (induction xs)
    case Nil
    show ?case by simp
  next
    case (Cons x xs)
    then have "x * x \<le> 1" by (simp add: square_le_one)
    moreover from Cons have "sum_list (map (\<lambda>x. x * x) xs) \<le> real (length xs)" by simp
    ultimately show ?case by simp
  qed
qed

lemma rms_nonempty:
  "inputData \<noteq> []
   \<Longrightarrow> rms inputData
       = Num (sqrt (sum_list (map (\<lambda>x. x * x) inputData) / real (length inputData)))"
  by (simp add: rms_def sumLoop_eq)

lemma rms_range:
  assumes "inputData \<noteq> []" and "\<forall>x \<in> set inputData. - 1 \<le> x \<and> x \<le> 1"
  shows "0 \<le> sqrt (sum_list (map (\<lambda>x. x * x) inputData) / real (length inputData))"
    and "sqrt (sum_list (map (\<lambda>x. x * x) inputData) / real (length inputData)) \<le> 1"
proof -
  from assms(1) have n: "0 < real (length inputData)" by simp
  from sum_squares_bounds[OF assms(2)] n
  show "0 \<le> sqrt (sum_list (map (\<lambda>x. x * x) inputData) / real (length inputData))"
    by simp
  from sum_squares_bounds(2)[OF assms(2)] n
  have "sum_list (map (\<lambda>x. x * x) inputData) / real (length inputData) \<le> 1"
    by (simp add: divide_le_eq)
  then show "sqrt (sum_list (map (\<lambda>x. x * x) inputData) / real (length inputData)) \<le> 1"
    by simp
qed

lemma rms_silent: "0 < n \<Longrightarrow> rms (replicate n 0) = Num 0"
  by (simp add: rms_def sumLoop_eq sum_list_replicate)

lemma levelsOf_onaudioprocess:
  "levelsOf (onaudioprocess U this inputData)
     = (if onAudioLevel this then [rms inputData] else [])"
  by (cases "currentSession this") (simp_all add: onaudioprocess_def levelsOf_def notify_def)

lemma realtimeInputsOf_onaudioprocess:
  "realtimeInputsOf (onaudioprocess U this inputData)
     = (case currentSession this of
          None \<Rightarrow> []
        | Some session \<Rightarrow>
            [\<lparr>mimeType = ''audio/pcm;rate=16000'',
              media_data = arrayBufferToBase64 U (float32ToInt16PCM U inputData)\<rparr>])"
  by (cases "currentSession this")
     (simp_all add: onaudioprocess_def realtimeInputsOf_def notify_def)

text \<open>
  Claim C6. A frame captured while no session handle is stored is dropped: the callback
  runs to its end, makes no call to the transport, and its only possible call is the
  level callback with the frame's RMS.
\<close>

theorem frame_dropped_without_session:
  assumes "currentSession this = None"
  shows "(onaudioprocess U this inputData :: 'a effect list)
           = notify (onAudioLevel this) (AudioLevel (rms inputData))
       \<and> realtimeInputsOf (onaudioprocess U this inputData :: 'a effect list) = []"
  using assms by (simp add: onaudioprocess_def realtimeInputsOf_def notify_def)

theorem frame_dropped_without_session_witness:
  "currentSession (liveService\<lparr>currentSession := None\<rparr>) = None
   \<and> onaudioprocess sampleUtils (liveService\<lparr>currentSession := None\<rparr>) [1, - 1]
       = ([AudioLevel (Num 1)] :: (string \<times> string) effect list)"
  using frame_dropped_without_session
          [of "liveService\<lparr>currentSession := None\<rparr>" sampleUtils "[1, - 1]",
           where ?'a = "string \<times> string"]
  by (simp add: liveService_def notify_def rms_def)

text \<open>
  Claim C8. With a level callback assigned, each frame makes exactly one level call,
  with the frame's RMS; for a non-empty frame of samples between -1 and 1 that is the
  square root of the mean square, a number between 0 and 1. A silent frame of 4096
  samples makes one level call with 0 and, when a session handle is stored, exactly one
  realtime-input message, tagged \<^verbatim>\<open>audio/pcm;rate=16000\<close>.
\<close>

theorem level_is_rms:
  assumes "onAudioLevel this"
  shows "levelsOf (onaudioprocess U this inputData :: 'a effect list) = [rms inputData]
       \<and> (inputData \<noteq> [] \<and> (\<forall>x \<in> set inputData. - 1 \<le> x \<and> x \<le> 1) \<longrightarrow>
            rms inputData
              = Num (sqrt (sum_list (map (\<lambda>x. x * x) inputData) / real (length inputData)))
            \<and> 0 \<le> sqrt (sum_list (map (\<lambda>x. x * x) inputData) / real (length inputData))
            \<and> sqrt (sum_list (map (\<lambda>x. x * x) inputData) / real (length inputData)) \<le> 1)
       \<and> levelsOf (onaudioprocess U this (replicate 4096 0) :: 'a effect list) = [Num 0]
       \<and> (\<forall>session. currentSession this = Some session \<longrightarrow>
            realtimeInputsOf (onaudioprocess U this (replicate 4096 0) :: 'a effect list)
              = [\<lparr>mimeType = ''audio/pcm;rate=16000'',
                  media_data = arrayBufferToBase64 U (float32ToInt16PCM U (replicate 4096 0))\<rparr>])"
proof -
  have one: "levelsOf (onaudioprocess U this inputData :: 'a effect list) = [rms inputData]"
    using assms by (simp add: levelsOf_onaudioprocess)
  have range: "rms inputData
              = Num (sqrt (sum_list (map (\<lambda>x. x * x) inputData) / real (length inputData)))
            \<and> 0 \<le> sqrt (sum_list (map (\<lambda>x. x * x) inputData) / real (length inputData))
            \<and> sqrt (sum_list (map (\<lambda>x. x * x) inputData) / real (length inputData)) \<le> 1"
    if "inputData \<noteq> []" and "\<forall>x \<in> set inputData. - 1 \<le> x \<and> x \<le> 1"
    using rms_nonempty[OF that(1)] rms_range[OF that] by blast
  have silent: "levelsOf (onaudioprocess U this (replicate 4096 0) :: 'a effect list) = [Num 0]"
    using assms rms_silent[of 4096] by (simp only: levelsOf_onaudioprocess) simp
  have sent: "realtimeInputsOf (onaudioprocess U this (replicate 4096 0) :: 'a effect list)
              = [\<lparr>mimeType = ''audio/pcm;rate=16000'',
                  media_data = arrayBufferToBase64 U (float32ToInt16PCM U (replicate 4096 0))\<rparr>]"
    if "currentSession this = Some session" for session
    using that by (simp only: realtimeInputsOf_onaudioprocess) simp
  from one range silent sent show ?thesis by blast
qed

theorem level_is_rms_witness:
  "onAudioLevel liveService
   \<and> currentSession liveService = Some (Session 1)
   \<and> levelsOf (onaudioprocess sampleUtils liveService (replicate 4096 0)
               :: (string \<times> string) effect list) = [Num 0]
   \<and> map mimeType (realtimeInputsOf (onaudioprocess sampleUtils liveService (replicate 4096 0)
               :: (string \<times> string) effect list)) = [''audio/pcm;rate=16000'']
   \<and> levelsOf (onaudioprocess sampleUtils liveService [1, - 1, 0, 0]
               :: (string \<times> string) effect list) = [Num (sqrt (2 / 4))]
   \<and> sqrt (2 / 4) \<le> (1 :: real)"
proof -
  have a: "onAudioLevel liveService"
    by (simp add: liveService_def)
  have s: "currentSession liveService = Some (Session 1)"
    by (simp add: liveService_def)
  note r = level_is_rms[OF a, of sampleUtils "[1, - 1, 0, 0]",
             where ?'a = "string \<times> string"]
  have b: "[1, - 1, 0, 0] \<noteq> [] \<and> (\<forall>x \<in> set [1, - 1, 0, 0 :: real]. - 1 \<le> x \<and> x \<le> 1)"
    by simp
  from r[THEN conjunct1] r[THEN conjunct2, THEN conjunct1, rule_format, OF b]
  have lv: "levelsOf (onaudioprocess sampleUtils liveService [1, - 1, 0, 0]
               :: (string \<times> string) effect list) = [Num (sqrt (2 / 4))]
            \<and> sqrt (2 / 4) \<le> (1 :: real)"
    by simp
  from r[THEN conjunct2, THEN conjunct2, THEN conjunct1]
  have sl: "levelsOf (onaudioprocess sampleUtils liveService (replicate 4096 0)
               :: (string \<times> string) effect list) = [Num 0]" .
  from r[THEN conjunct2, THEN conjunct2, THEN conjunct2, rule_format, OF s]
  have mt: "map mimeType (realtimeInputsOf (onaudioprocess sampleUtils liveService
               (replicate 4096 0) :: (string \<times> string) effect list))
              = [''audio/pcm;rate=16000'']"
    by simp
  from a s sl mt lv show ?thesis by blast
qed

subsection \<open>Lifecycle\<close>

lemma liveService_reached:
  "fst (connect firstEnv hostReady :: (error + unit) \<times> GeminiLiveService \<times> 'a effect list)
     = Inr ()
   \<and> fst (handleOpen (fst (snd (connect firstEnv hostReady
            :: (error + unit) \<times> GeminiLiveService \<times> 'a effect list)))
          :: GeminiLiveService \<times> 'a effect list)
     = liveService"
  by (simp add: connect_def handleOpen_def firstEnv_def hostReady_def constructor_def
        liveService_def notify_def)

lemma stop_state:
  "fst (stop this :: GeminiLiveService \<times> 'a effect list)
     = this\<lparr>processor := None, source := None, stream := None, inputAudioContext := None,
            outputAudioContext := None, currentSession := None\<rparr>"
  by (simp add: stop_def)

lemma statusesOf_notify_status:
  "statusesOf (notify cb (StatusChange t)) = (if cb then [t] else [])"
  by (simp add: statusesOf_def notify_def)

lemma statusesOf_stop:
  "statusesOf (snd (stop this :: GeminiLiveService \<times> 'a effect list))
     = (if onStatusChange this then [''Disconnected''] else [])"
  by (cases "processor this"; cases "source this"; cases "stream this";
      cases "inputAudioContext this"; cases "outputAudioContext this";
      simp add: stop_def statusesOf_def notify_def)

lemma stop_again:
  "(stop (fst (stop this :: GeminiLiveService \<times> 'a effect list))
      :: GeminiLiveService \<times> 'a effect list)
     = (fst (stop this :: GeminiLiveService \<times> 'a effect list),
        notify (onStatusChange this) (StatusChange ''Disconnected''))"
  by (simp add: stop_def)

lemma terminalNotifications_append:
  "terminalNotifications (xs @ ys) = terminalNotifications xs + terminalNotifications ys"
  by (simp add: terminalNotifications_def statusesOf_append)

lemma terminalNotifications_stop:
  "terminalNotifications (snd (stop this :: GeminiLiveService \<times> 'a effect list))
     = (if onStatusChange this then 1 else 0)"
  by (simp add: terminalNotifications_def statusesOf_stop)

lemma terminalNotifications_stopTwice:
  "terminalNotifications (snd (stopTwice this :: GeminiLiveService \<times> 'a effect list))
     = (if onStatusChange this then 2 else 0)"
proof -
  have "snd (stopTwice this :: GeminiLiveService \<times> 'a effect list)
          = snd (stop this :: GeminiLiveService \<times> 'a effect list)
            @ snd (stop (fst (stop this :: GeminiLiveService \<times> 'a effect list))
                     :: GeminiLiveService \<times> 'a effect list)"
    by (simp add: stopTwice_def split_beta)
  then show ?thesis
    by (simp add: terminalNotifications_append terminalNotifications_stop stop_state)
qed

lemma terminalNotifications_onclose:
  "terminalNotifications (snd (onclose this :: GeminiLiveService \<times> 'a effect list))
     = (if onStatusChange this then 2 else 0)"
proof -
  have "snd (onclose this :: GeminiLiveService \<times> 'a effect list)
          = notify (onStatusChange this) (StatusChange ''Disconnected'')
            @ snd (stop this :: GeminiLiveService \<times> 'a effect list)"
    by (simp add: onclose_def split_beta)
  then show ?thesis
    by (simp add: terminalNotifications_append terminalNotifications_stop)
       (simp add: terminalNotifications_def statusesOf_notify_status)
qed

text \<open>
  Claim C2, as stated, fails: from the live service two calls of \<^verbatim>\<open>stop()\<close> in
  succession make two terminal status notifications, not one, and so does one remote
  close, whose handler notifies and then calls \<^verbatim>\<open>stop()\<close>.
\<close>

theorem stop_idempotent_counterexample:
  "terminalNotifications
     (snd (stopTwice liveService :: GeminiLiveService \<times> (string \<times> string) effect list)) = 2
   \<and> terminalNotifications
       (snd (stopTwice liveService :: GeminiLiveService \<times> (string \<times> string) effect list)) \<noteq> 1
   \<and> terminalNotifications
       (snd (onclose liveService :: GeminiLiveService \<times> (string \<times> string) effect list)) = 2
   \<and> terminalNotifications
       (snd (onclose liveService :: GeminiLiveService \<times> (string \<times> string) effect list)) \<noteq> 1"
  by (simp add: terminalNotifications_stopTwice terminalNotifications_onclose liveService_def)

text \<open>
  Claim C2, amended. Every call of \<^verbatim>\<open>stop()\<close> makes exactly one terminal status
  notification when a status callback is assigned (none otherwise). A second call in
  succession releases nothing, leaves every field as the first call left it and makes the
  notification again, so two calls make two notifications; a remote close makes two as
  well.
\<close>

theorem stop_notifies_each_call:
  "statusesOf (snd (stop this :: GeminiLiveService \<times> 'a effect list))
     = (if onStatusChange this then [''Disconnected''] else [])
   \<and> (stop (fst (stop this :: GeminiLiveService \<times> 'a effect list))
        :: GeminiLiveService \<times> 'a effect list)
     = (fst (stop this :: GeminiLiveService \<times> 'a effect list),
        notify (onStatusChange this) (StatusChange ''Disconnected''))
   \<and> terminalNotifications (snd (stopTwice this :: GeminiLiveService \<times> 'a effect list))
     = (if onStatusChange this then 2 else 0)
   \<and> terminalNotifications (snd (onclose this :: GeminiLiveService \<times> 'a effect list))
     = (if onStatusChange this then 2 else 0)"
  using statusesOf_stop[of this, where ?'a = 'a] stop_again[of this, where ?'a = 'a]
    terminalNotifications_stopTwice[of this, where ?'a = 'a]
    terminalNotifications_onclose[of this, where ?'a = 'a]
  by blast

theorem stop_notifies_each_call_witness:
  "onStatusChange liveService
   \<and> statusesOf (snd (stop liveService :: GeminiLiveService \<times> (string \<times> string) effect list))
       = [''Disconnected'']
   \<and> snd (stop (fst (stop liveService :: GeminiLiveService \<times> (string \<times> string) effect list))
           :: GeminiLiveService \<times> (string \<times> string) effect list)
       = [StatusChange ''Disconnected'']"
  using stop_notifies_each_call[of liveService, where ?'a = "string \<times> string"]
  by (simp add: liveService_def notify_def)

lemma connect_success:
  assumes "getUserMedia env = Inr st" and "liveConnect env = Inr session"
  shows "(connect env this :: (error + unit) \<times> GeminiLiveService \<times> 'a effect list)
           = (Inr (),
              this\<lparr>inputAudioContext := Some \<lparr>sampleRate = 16000\<rparr>,
                   outputAudioContext := Some \<lparr>sampleRate = 24000\<rparr>,
                   stream := Some st,
                   sessionPromise := Some (Inr session),
                   currentSession := Some session\<rparr>,
              notify (onStatusChange this) (StatusChange ''Initializing Audio...'')
              @ [NewAudioContext 16000, NewAudioContext 24000]
              @ (if inputSuspended env then [Resume \<lparr>sampleRate = 16000\<rparr>] else [])
              @ (if outputSuspended env then [Resume \<lparr>sampleRate = 24000\<rparr>] else [])
              @ notify (onStatusChange this) (StatusChange ''Requesting Mic...'')
              @ [GetUserMedia]
              @ notify (onStatusChange this) (StatusChange ''Connecting to HQ...'')
              @ [LiveConnect])"
  using assms by (simp add: connect_def Let_def)

lemma liveConnectsOf_connect_success:
  assumes "getUserMedia env = Inr st" and "liveConnect env = Inr session"
  shows "liveConnectsOf (snd (snd (connect env this
           :: (error + unit) \<times> GeminiLiveService \<times> 'a effect list))) = [()]"
  by (cases "onStatusChange this"; cases "inputSuspended env"; cases "outputSuspended env";
      simp add: connect_success[OF assms] liveConnectsOf_def notify_def)

text \<open>
  Claim C5, as stated, fails: \<^verbatim>\<open>connect()\<close> called on the live service, which holds
  session 1, is not rejected; it opens a further session and stores its handle in place
  of the first.
\<close>

theorem second_connect_counterexample:
  "fst (connect secondEnv liveService
          :: (error + unit) \<times> GeminiLiveService \<times> (string \<times> string) effect list) = Inr ()
   \<and> currentSession liveService = Some (Session 1)
   \<and> liveConnectsOf (snd (snd (connect secondEnv liveService
          :: (error + unit) \<times> GeminiLiveService \<times> (string \<times> string) effect list))) = [()]
   \<and> currentSession (fst (snd (connect secondEnv liveService
          :: (error + unit) \<times> GeminiLiveService \<times> (string \<times> string) effect list)))
       = Some (Session 2)
   \<and> fst (snd (connect secondEnv liveService
          :: (error + unit) \<times> GeminiLiveService \<times> (string \<times> string) effect list))
       \<noteq> liveService"
  by (simp add: connect_def secondEnv_def liveService_def notify_def liveConnectsOf_def)

text \<open>
  Claim C5, amended. \<^verbatim>\<open>connect()\<close> does not look at the state it is called in:
  whenever the microphone and the transport both succeed it returns normally, creates
  two new audio contexts, opens one transport session and overwrites the stored
  contexts, stream, promise and session handle with the new ones, whether or not a
  session handle was stored before. It releases nothing, so an earlier session stays
  open; the service itself holds one session handle at a time, the latest.
\<close>

theorem connect_unguarded:
  assumes "getUserMedia env = Inr st" and "liveConnect env = Inr session"
  shows "fst (connect env this :: (error + unit) \<times> GeminiLiveService \<times> 'a effect list)
           = Inr ()
       \<and> fst (snd (connect env this :: (error + unit) \<times> GeminiLiveService \<times> 'a effect list))
           = this\<lparr>inputAudioContext := Some \<lparr>sampleRate = 16000\<rparr>,
                  outputAudioContext := Some \<lparr>sampleRate = 24000\<rparr>,
                  stream := Some st,
                  sessionPromise := Some (Inr session),
                  currentSession := Some session\<rparr>
       \<and> snd (snd (connect env this :: (error + unit) \<times> GeminiLiveService \<times> 'a effect list))
           = notify (onStatusChange this) (StatusChange ''Initializing Audio...'')
             @ [NewAudioContext 16000, NewAudioContext 24000]
             @ (if inputSuspended env then [Resume \<lparr>sampleRate = 16000\<rparr>] else [])
             @ (if outputSuspended env then [Resume \<lparr>sampleRate = 24000\<rparr>] else [])
             @ notify (onStatusChange this) (StatusChange ''Requesting Mic...'')
             @ [GetUserMedia]
             @ notify (onStatusChange this) (StatusChange ''Connecting to HQ...'')
             @ [LiveConnect]
       \<and> liveConnectsOf (snd (snd (connect env this
             :: (error + unit) \<times> GeminiLiveService \<times> 'a effect list))) = [()]"
  using liveConnectsOf_connect_success[OF assms, of this, where ?'a = 'a]
  by (simp add: connect_success[OF assms])

theorem connect_unguarded_witness:
  "getUserMedia secondEnv = Inr (MediaStream 2)
   \<and> liveConnect secondEnv = Inr (Session 2)
   \<and> currentSession liveService = Some (Session 1)
   \<and> fst (connect secondEnv liveService
          :: (error + unit) \<times> GeminiLiveService \<times> (string \<times> string) effect list) = Inr ()
   \<and> fst (snd (connect secondEnv liveService
          :: (error + unit) \<times> GeminiLiveService \<times> (string \<times> string) effect list))
       = liveService\<lparr>stream := Some (MediaStream 2),
                     sessionPromise := Some (Inr (Session 2)),
                     currentSession := Some (Session 2)\<rparr>"
proof -
  have m: "getUserMedia secondEnv = Inr (MediaStream 2)"
    by (simp add: secondEnv_def)
  have c: "liveConnect secondEnv = Inr (Session 2)"
    by (simp add: secondEnv_def)
  from connect_unguarded[OF m c, of liveService, where ?'a = "string \<times> string"] m c
  show ?thesis
    by (simp add: liveService_def)
qed

end
